theory Spec2Isabelle
  imports Main
begin

section \<open>Strings\<close>

text \<open>
  A JavaScript string is modelled as a \<^typ>\<open>string\<close>: the list of its code units, for
  strings whose code units are below 256. \<open>length\<close> is the source's \<open>.length\<close>.
\<close>

text \<open>
  The upper-case letters among these code units and their lower case, in the same order:
  the ASCII letters \<open>A\<close> to \<open>Z\<close>, and the Latin-1 letters \<open>0xC0\<close> to \<open>0xDE\<close> but the
  sign \<open>0xD7\<close>.
\<close>

definition upperAscii :: string where
  "upperAscii = ''ABCDEFGHIJKLMNOPQRSTUVWXYZ''"

definition lowerAscii :: string where
  "lowerAscii = ''abcdefghijklmnopqrstuvwxyz''"

definition upperLatin1 :: string where
  "upperLatin1 =
     [CHR 0xC0, CHR 0xC1, CHR 0xC2, CHR 0xC3, CHR 0xC4, CHR 0xC5, CHR 0xC6, CHR 0xC7,
      CHR 0xC8, CHR 0xC9, CHR 0xCA, CHR 0xCB, CHR 0xCC, CHR 0xCD, CHR 0xCE, CHR 0xCF,
      CHR 0xD0, CHR 0xD1, CHR 0xD2, CHR 0xD3, CHR 0xD4, CHR 0xD5, CHR 0xD6, CHR 0xD8,
      CHR 0xD9, CHR 0xDA, CHR 0xDB, CHR 0xDC, CHR 0xDD, CHR 0xDE]"

definition lowerLatin1 :: string where
  "lowerLatin1 =
     [CHR 0xE0, CHR 0xE1, CHR 0xE2, CHR 0xE3, CHR 0xE4, CHR 0xE5, CHR 0xE6, CHR 0xE7,
      CHR 0xE8, CHR 0xE9, CHR 0xEA, CHR 0xEB, CHR 0xEC, CHR 0xED, CHR 0xEE, CHR 0xEF,
      CHR 0xF0, CHR 0xF1, CHR 0xF2, CHR 0xF3, CHR 0xF4, CHR 0xF5, CHR 0xF6, CHR 0xF8,
      CHR 0xF9, CHR 0xFA, CHR 0xFB, CHR 0xFC, CHR 0xFD, CHR 0xFE]"

text \<open>
  The lower case of one code unit. Bit 7 tells the code units from 128 on, where the
  Latin-1 letters are, from the ASCII ones.
\<close>

definition toLowerCase_char :: "char \<Rightarrow> char" where
  "toLowerCase_char c =
     (case map_of (if digit7 c then zip upperLatin1 lowerLatin1 else zip upperAscii lowerAscii) c of
        None \<Rightarrow> c
      | Some l \<Rightarrow> l)"

text \<open>\<open>String.prototype.toLowerCase\<close>.\<close>

definition toLowerCase :: "string \<Rightarrow> string" where
  "toLowerCase s = map toLowerCase_char s"

text \<open>
  The white space \<open>String.prototype.trim\<close> strips, among the code units below 256:
  TAB, LF, VT, FF, CR, SPACE and NBSP.
\<close>

definition isWhiteSpace :: "char \<Rightarrow> bool" where
  "isWhiteSpace c = ((of_char c :: nat) \<in> {9, 10, 11, 12, 13, 32, 160})"

definition trim :: "string \<Rightarrow> string" where
  "trim s = rev (dropWhile isWhiteSpace (rev (dropWhile isWhiteSpace s)))"

text \<open>\<open>s.split(sep)\<close> for a separator of one code unit: never the empty list.\<close>

fun split :: "char \<Rightarrow> string \<Rightarrow> string list" where
  "split sep [] = [[]]"
| "split sep (c # cs) =
     (if c = sep then [] # split sep cs
      else (case split sep cs of
              [] \<Rightarrow> [[c]]
            | w # ws \<Rightarrow> (c # w) # ws))"

text \<open>\<open>s.indexOf(w)\<close>, counted from position \<open>i\<close> of the original string.\<close>

fun indexOf_from :: "nat \<Rightarrow> string \<Rightarrow> string \<Rightarrow> nat option" where
  "indexOf_from i [] w = (if w = [] then Some i else None)"
| "indexOf_from i (c # cs) w =
     (if take (length w) (c # cs) = w then Some i else indexOf_from (Suc i) cs w)"

definition indexOf :: "string \<Rightarrow> string \<Rightarrow> nat option" where
  "indexOf s w = indexOf_from 0 s w"

text \<open>Number to string, as \<open>a.start + '.'\<close> converts a non-negative integer.\<close>

definition digitChar :: "nat \<Rightarrow> char" where
  "digitChar d = ''0123456789'' ! d"

function numberToString :: "nat \<Rightarrow> string" where
  "numberToString n =
     (if n < 10 then [digitChar n]
      else numberToString (n div 10) @ [digitChar (n mod 10)])"
  by pat_completeness auto
termination
  by (relation "measure id") auto

declare numberToString.simps [simp del]

section \<open>Match spans and the string-matching primitives\<close>

text \<open>\<open>IMatch\<close>: the half-open range \<open>[start, end)\<close>; \<open>end\<close> is written \<open>end'\<close>.\<close>

record IMatch =
  start :: nat
  end' :: nat

text \<open>
  \<open>IFilter\<close>: \<open>(word, wordToMatchAgainst) => IMatch[]\<close>, \<open>null\<close> being \<open>None\<close>. Every
  array, the empty one too, is truthy in the source: a test \<open>if (matches)\<close> is \<open>\<noteq> None\<close>.
\<close>

type_synonym IFilter = "string \<Rightarrow> string \<Rightarrow> IMatch list option"

text \<open>
  Modelled from the spec: \<open>strings.compareIgnoreCase\<close> of vs/base/common/strings is not
  under src/. The spec reads its result \<open>0\<close> as "case-insensitively equals"; the sign
  otherwise is that of the code-unit order of the lower-cased strings.
\<close>

fun compareUnits :: "string \<Rightarrow> string \<Rightarrow> int" where
  "compareUnits [] [] = 0"
| "compareUnits [] (y # ys) = - 1"
| "compareUnits (x # xs) [] = 1"
| "compareUnits (x # xs) (y # ys) =
     (if (of_char x :: nat) < of_char y then - 1
      else if (of_char y :: nat) < of_char x then 1
      else compareUnits xs ys)"

definition compareIgnoreCase :: "string \<Rightarrow> string \<Rightarrow> int" where
  "compareIgnoreCase a b = compareUnits (toLowerCase a) (toLowerCase b)"

text \<open>
  Modelled from the spec: \<open>matchesPrefix\<close> of vs/base/common/filters is not under src/.
  The spec's prefix match, case-insensitive: \<open>word\<close> is a prefix of
  \<open>wordToMatchAgainst\<close>, and the span is the prefix. An empty text matches nothing; an
  empty word matches with no span.
\<close>

definition matchesPrefix :: IFilter where
  "matchesPrefix word wordToMatchAgainst =
     (if wordToMatchAgainst = [] \<or> length wordToMatchAgainst < length word then None
      else if toLowerCase (take (length word) wordToMatchAgainst) \<noteq> toLowerCase word then None
      else Some (if length word > 0 then [\<lparr>start = 0, end' = length word\<rparr>] else []))"

text \<open>
  Modelled from the spec: \<open>matchesContiguousSubString\<close> of vs/base/common/filters is not
  under src/. The spec's contiguous-substring match: the first occurrence of the
  lower-cased word in the lower-cased text, as one span.
\<close>

definition matchesContiguousSubString :: IFilter where
  "matchesContiguousSubString word wordToMatchAgainst =
     (case indexOf (toLowerCase wordToMatchAgainst) (toLowerCase word) of
        None \<Rightarrow> None
      | Some index \<Rightarrow> Some [\<lparr>start = index, end' = index + length word\<rparr>])"

text \<open>
  Modelled from the spec: the combinator \<open>or\<close> of vs/base/common/filters is not under
  src/. The spec's logical OR of filters: the result of the first filter, in the order
  given, that matches.
\<close>

fun or_filter :: "IFilter list \<Rightarrow> IFilter" where
  "or_filter [] word wordToMatchAgainst = None"
| "or_filter (f # fs) word wordToMatchAgainst =
     (case f word wordToMatchAgainst of
        Some match \<Rightarrow> Some match
      | None \<Rightarrow> or_filter fs word wordToMatchAgainst)"

text \<open>
  \<open>matchesWords\<close> and \<open>matchesCamelCase\<close> of vs/base/common/filters are not under src/,
  and the spec gives only their signature: they are parameters of the model.
  \<open>matchesWords\<close> takes the optional third argument \<open>contiguous\<close>, \<open>false\<close> when omitted.
\<close>

record WordFilters =
  matchesWords :: "string \<Rightarrow> string \<Rightarrow> bool \<Rightarrow> IMatch list option"
  matchesCamelCase :: IFilter

text \<open>\<open>const wordFilter = or(matchesPrefix, matchesWords, matchesContiguousSubString)\<close>\<close>

definition wordFilter :: "WordFilters \<Rightarrow> IFilter" where
  "wordFilter flt =
     or_filter [matchesPrefix, (\<lambda>w t. matchesWords flt w t False), matchesContiguousSubString]"

section \<open>Keybindings, their labels and the entries\<close>

text \<open>
  \<open>ResolvedKeybinding\<close> is an abstract class of vs/base/common/keyCodes, produced by the
  keybinding service. It is modelled by the values its methods return. The two parts
  that \<open>getParts()\<close> returns are resolved keybindings themselves (or \<open>null\<close>); the
  matcher calls only the four \<open>has...Modifier()\<close> and
  \<open>getAriaLabelWithoutModifiers()\<close> on a part.
\<close>

record KeybindingPart =
  hasCtrlModifier :: bool
  hasShiftModifier :: bool
  hasAltModifier :: bool
  hasMetaModifier :: bool
  getAriaLabelWithoutModifiers :: string

record ResolvedKeybinding =
  getAriaLabel :: string
  getLabel :: string
  getParts :: "KeybindingPart option \<times> KeybindingPart option"

text \<open>
  \<open>ModLabels\<close> (\<open>ModifierLabels\<close> of vs/platform/keybinding/common/keybindingLabels):
  the display strings of the four modifiers in one style. The tables of the three
  providers are not under src/: the labels are a parameter. The fields carry the suffix
  \<open>_label\<close>, the source's names being those of \<open>KeybindingMatch\<close>.
\<close>

record ModLabels =
  ctrlKey_label :: string
  shiftKey_label :: string
  altKey_label :: string
  metaKey_label :: string

record ModifierLabels =
  ui :: ModLabels
  aria :: ModLabels
  user :: ModLabels

text \<open>\<open>KeybindingMatch\<close>: a flag the source leaves \<open>undefined\<close> is \<open>False\<close>.\<close>

record KeybindingMatch =
  ctrlKey :: bool
  shiftKey :: bool
  altKey :: bool
  metaKey :: bool
  keyCode :: bool

record KeybindingMatches =
  firstPart :: KeybindingMatch
  chordPart :: KeybindingMatch

text \<open>
  \<open>ResolvedKeybindingItem\<close> of vs/platform/keybinding/common/resolvedKeybindingItem.
  \<open>when\<close> is a \<open>ContextKeyExpr\<close> or \<open>null\<close>, read only through \<open>serialize()\<close>: it is
  modelled by its serialisation. \<open>commandArgs\<close> is never read.
\<close>

record ResolvedKeybindingItem =
  resolvedKeybinding :: "ResolvedKeybinding option"
  rki_command :: "string option"
  rki_commandArgs :: "unit option"
  rki_when :: "string option"
  isDefault :: bool

definition new_ResolvedKeybindingItem ::
  "ResolvedKeybinding option \<Rightarrow> string option \<Rightarrow> unit option \<Rightarrow> string option \<Rightarrow> bool
     \<Rightarrow> ResolvedKeybindingItem" where
  "new_ResolvedKeybindingItem rk cmd args w isDef =
     \<lparr>resolvedKeybinding = rk, rki_command = cmd, rki_commandArgs = args, rki_when = w,
      isDefault = isDef\<rparr>"

text \<open>\<open>IKeybindingItem\<close>; \<open>commandDefaultLabel\<close> may be \<open>null\<close>; \<open>when\<close> is written \<open>when'\<close>.\<close>

record IKeybindingItem =
  keybinding :: "ResolvedKeybinding option"
  keybindingItem :: ResolvedKeybindingItem
  commandLabel :: string
  commandDefaultLabel :: "string option"
  command :: string
  source :: string
  when' :: string

text \<open>
  The six public fields of the class \<open>KeybindingItemMatches\<close>. \<open>IKeybindingItemEntry\<close>
  has the same six optional fields: it is modelled as an extension of this record, a
  field the source leaves out being \<open>None\<close>.
\<close>

record KeybindingItemMatches =
  commandIdMatches :: "IMatch list option"
  commandLabelMatches :: "IMatch list option"
  commandDefaultLabelMatches :: "IMatch list option"
  sourceMatches :: "IMatch list option"
  whenMatches :: "IMatch list option"
  keybindingMatches :: "KeybindingMatches option"

record IKeybindingItemEntry = KeybindingItemMatches +
  entry_id :: string
  templateId :: string
  entry_keybindingItem :: IKeybindingItem

definition KEYBINDING_ENTRY_TEMPLATE_ID :: string where
  "KEYBINDING_ENTRY_TEMPLATE_ID = ''keybinding.entry.template''"

section \<open>The entry matcher: class KeybindingItemMatches\<close>

text \<open>
  \<open>distinct(array, keyFn)\<close> of vs/base/common/arrays is not under src/.
  Modelled from the spec: "deduplicate identical spans", by the key the source passes:
  an element is kept when no earlier element has its key.
\<close>

fun distinct_seen :: "('a \<Rightarrow> string) \<Rightarrow> string set \<Rightarrow> 'a list \<Rightarrow> 'a list" where
  "distinct_seen keyFn seen [] = []"
| "distinct_seen keyFn seen (elem # array) =
     (if keyFn elem \<in> seen then distinct_seen keyFn seen array
      else elem # distinct_seen keyFn (insert (keyFn elem) seen) array)"

definition distinct_by :: "('a \<Rightarrow> string) \<Rightarrow> 'a list \<Rightarrow> 'a list" where
  "distinct_by keyFn array = distinct_seen keyFn {} array"

text \<open>\<open>a => a.start + '.' + a.end\<close>\<close>

definition matchKey :: "IMatch \<Rightarrow> string" where
  "matchKey a = numberToString (start a) @ ''.'' @ numberToString (end' a)"

text \<open>
  The test of \<open>matches.some(...)\<close> in \<open>filterAndSort\<close>: \<open>m\<close> differs from \<open>match\<close> in
  start or end, and covers it.
\<close>

definition covers :: "IMatch \<Rightarrow> IMatch \<Rightarrow> bool" where
  "covers m match =
     (\<not> (start m = start match \<and> end' m = end' match)
      \<and> (start m \<le> start match \<and> end' m \<ge> end' match))"

text \<open>
  \<open>filterAndSort\<close>. The predicate of \<open>filter\<close> looks through the whole input
  \<open>matches\<close>. \<open>sort\<close> compares by \<open>a.start - b.start\<close>; the spans that reach it have
  pairwise different starts (lemma \<open>filterAndSort_starts_distinct\<close>), so its result
  does not depend on the sorting algorithm.
\<close>

definition filterAndSort :: "IMatch list \<Rightarrow> IMatch list" where
  "filterAndSort matches =
     sort_key start
       (filter (\<lambda>match. \<not> list_ex (\<lambda>m. covers m match) matches)
          (distinct_by matchKey matches))"

text \<open>The loop of the method \<open>matchesWords\<close>; \<open>matches\<close> starts as \<open>[]\<close>.\<close>

fun matchesWords_loop ::
  "IFilter \<Rightarrow> string \<Rightarrow> string list \<Rightarrow> IMatch list \<Rightarrow> IMatch list option" where
  "matchesWords_loop wordMatchesFilter wordToMatchAgainst [] matches = Some matches"
| "matchesWords_loop wordMatchesFilter wordToMatchAgainst (word # words) matches =
     (case wordMatchesFilter word wordToMatchAgainst of
        Some wordMatches \<Rightarrow>
          matchesWords_loop wordMatchesFilter wordToMatchAgainst words (matches @ wordMatches)
      | None \<Rightarrow> None)"

definition matchesWords_method :: "string list \<Rightarrow> string \<Rightarrow> IFilter \<Rightarrow> IMatch list option" where
  "matchesWords_method words wordToMatchAgainst wordMatchesFilter =
     matchesWords_loop wordMatchesFilter wordToMatchAgainst words []"

text \<open>The method \<open>matches\<close>.\<close>

definition matches ::
  "WordFilters \<Rightarrow> string \<Rightarrow> string \<Rightarrow> IFilter \<Rightarrow> string list \<Rightarrow> IMatch list option" where
  "matches flt searchValue wordToMatchAgainst wordMatchesFilter words =
     (let m1 = wordFilter flt searchValue wordToMatchAgainst;
          m2 = (case m1 of
                  None \<Rightarrow> matchesWords_method words wordToMatchAgainst wordMatchesFilter
                | Some m \<Rightarrow> Some m)
      in case m2 of
           None \<Rightarrow> None
         | Some m \<Rightarrow> Some (filterAndSort m))"

text \<open>
  The four modifier checks. \<open>matchesPrefix\<close> receives the modifier's label as its
  \<open>word\<close> and the query word as its \<open>wordToMatchAgainst\<close>, as the source writes it.
\<close>

definition matchesMetaModifier :: "ModifierLabels \<Rightarrow> KeybindingPart option \<Rightarrow> string \<Rightarrow> bool" where
  "matchesMetaModifier modifierLabels part word =
     (case part of
        None \<Rightarrow> False
      | Some k \<Rightarrow>
          if \<not> hasMetaModifier k then False
          else if matchesPrefix (metaKey_label (ui modifierLabels)) word \<noteq> None then True
          else if matchesPrefix (metaKey_label (aria modifierLabels)) word \<noteq> None then True
          else if matchesPrefix (metaKey_label (user modifierLabels)) word \<noteq> None then True
          else False)"

definition matchesCtrlModifier :: "ModifierLabels \<Rightarrow> KeybindingPart option \<Rightarrow> string \<Rightarrow> bool" where
  "matchesCtrlModifier modifierLabels part word =
     (case part of
        None \<Rightarrow> False
      | Some k \<Rightarrow>
          if \<not> hasCtrlModifier k then False
          else if matchesPrefix (ctrlKey_label (ui modifierLabels)) word \<noteq> None then True
          else if matchesPrefix (ctrlKey_label (aria modifierLabels)) word \<noteq> None then True
          else if matchesPrefix (ctrlKey_label (user modifierLabels)) word \<noteq> None then True
          else False)"

definition matchesShiftModifier :: "ModifierLabels \<Rightarrow> KeybindingPart option \<Rightarrow> string \<Rightarrow> bool" where
  "matchesShiftModifier modifierLabels part word =
     (case part of
        None \<Rightarrow> False
      | Some k \<Rightarrow>
          if \<not> hasShiftModifier k then False
          else if matchesPrefix (shiftKey_label (ui modifierLabels)) word \<noteq> None then True
          else if matchesPrefix (shiftKey_label (aria modifierLabels)) word \<noteq> None then True
          else if matchesPrefix (shiftKey_label (user modifierLabels)) word \<noteq> None then True
          else False)"

definition matchesAltModifier :: "ModifierLabels \<Rightarrow> KeybindingPart option \<Rightarrow> string \<Rightarrow> bool" where
  "matchesAltModifier modifierLabels part word =
     (case part of
        None \<Rightarrow> False
      | Some k \<Rightarrow>
          if \<not> hasAltModifier k then False
          else if matchesPrefix (altKey_label (ui modifierLabels)) word \<noteq> None then True
          else if matchesPrefix (altKey_label (aria modifierLabels)) word \<noteq> None then True
          else if matchesPrefix (altKey_label (user modifierLabels)) word \<noteq> None then True
          else False)"

definition matchesKeyCode :: "KeybindingPart option \<Rightarrow> string \<Rightarrow> bool" where
  "matchesKeyCode part word =
     (case part of
        None \<Rightarrow> False
      | Some k \<Rightarrow>
          (let ariaLabel = getAriaLabelWithoutModifiers k in
           if length ariaLabel = 1 \<or> length word = 1
           then (if compareIgnoreCase ariaLabel word = 0 then True else False)
           else (if matchesContiguousSubString word ariaLabel \<noteq> None then True else False)))"

text \<open>
  \<open>matchPart\<close> writes into the \<open>match\<close> object it is given: the model returns the flag
  \<open>matched\<close> and the object as updated.
\<close>

definition matchPart ::
  "ModifierLabels \<Rightarrow> KeybindingPart option \<Rightarrow> KeybindingMatch \<Rightarrow> string
     \<Rightarrow> bool \<times> KeybindingMatch" where
  "matchPart modifierLabels part match word =
     (let s0 = (False, match);
          s1 = (if matchesMetaModifier modifierLabels part word
                then (True, (snd s0)\<lparr>metaKey := True\<rparr>) else s0);
          s2 = (if matchesCtrlModifier modifierLabels part word
                then (True, (snd s1)\<lparr>ctrlKey := True\<rparr>) else s1);
          s3 = (if matchesShiftModifier modifierLabels part word
                then (True, (snd s2)\<lparr>shiftKey := True\<rparr>) else s2);
          s4 = (if matchesAltModifier modifierLabels part word
                then (True, (snd s3)\<lparr>altKey := True\<rparr>) else s3);
          s5 = (if matchesKeyCode part word
                then (True, (snd s4)\<lparr>keyCode := True\<rparr>) else s4)
      in s5)"

definition hasAnyMatch :: "KeybindingMatch \<Rightarrow> bool" where
  "hasAnyMatch keybindingMatch =
     (altKey keybindingMatch \<or> ctrlKey keybindingMatch \<or> metaKey keybindingMatch
      \<or> shiftKey keybindingMatch \<or> keyCode keybindingMatch)"

text \<open>\<open>{}\<close>, the match object with no flag set.\<close>

definition emptyMatch :: KeybindingMatch where
  "emptyMatch =
     \<lparr>ctrlKey = False, shiftKey = False, altKey = False, metaKey = False, keyCode = False\<rparr>"

definition fullMatch :: KeybindingMatch where
  "fullMatch =
     \<lparr>ctrlKey = True, shiftKey = True, altKey = True, metaKey = True, keyCode = True\<rparr>"

text \<open>
  The loop of \<open>matchesKeybinding\<close> over the words; its state is \<open>firstPartMatch\<close>,
  \<open>chordPartMatch\<close> and \<open>matchedWords\<close>.
\<close>

fun matchesKeybinding_loop ::
  "ModifierLabels \<Rightarrow> KeybindingPart option \<Rightarrow> KeybindingPart option \<Rightarrow> string list
     \<Rightarrow> KeybindingMatch \<times> KeybindingMatch \<times> string list
     \<Rightarrow> KeybindingMatch \<times> KeybindingMatch \<times> string list" where
  "matchesKeybinding_loop modifierLabels fp cp [] st = st"
| "matchesKeybinding_loop modifierLabels fp cp (word # words)
       (firstPartMatch, chordPartMatch, matchedWords) =
     (let (firstPartMatched, firstPartMatch') = matchPart modifierLabels fp firstPartMatch word;
          (chordPartMatched, chordPartMatch') = matchPart modifierLabels cp chordPartMatch word
      in matchesKeybinding_loop modifierLabels fp cp words
           (firstPartMatch', chordPartMatch',
            if firstPartMatched \<or> chordPartMatched then matchedWords @ [word]
            else matchedWords))"

definition matchesKeybinding ::
  "ModifierLabels \<Rightarrow> ResolvedKeybinding \<Rightarrow> string \<Rightarrow> string list \<Rightarrow> KeybindingMatches option" where
  "matchesKeybinding modifierLabels kb searchValue words =
     (if compareIgnoreCase searchValue (getAriaLabel kb) = 0
         \<or> compareIgnoreCase searchValue (getLabel kb) = 0
      then Some \<lparr>firstPart = fullMatch, chordPart = fullMatch\<rparr>
      else
        (let (fp, cp) = getParts kb;
             (firstPartMatch, chordPartMatch, matchedWords) =
               matchesKeybinding_loop modifierLabels fp cp words (emptyMatch, emptyMatch, [])
         in if length matchedWords \<noteq> length words then None
            else if hasAnyMatch firstPartMatch \<or> hasAnyMatch chordPartMatch
            then Some \<lparr>firstPart = firstPartMatch, chordPart = chordPartMatch\<rparr>
            else None))"

text \<open>
  The constructor of \<open>KeybindingItemMatches\<close>. A string is truthy when it is not empty,
  \<open>null\<close> is falsy.
\<close>

definition new_KeybindingItemMatches ::
  "WordFilters \<Rightarrow> ModifierLabels \<Rightarrow> IKeybindingItem \<Rightarrow> string \<Rightarrow> string list \<Rightarrow> string list
     \<Rightarrow> KeybindingItemMatches" where
  "new_KeybindingItemMatches flt modifierLabels item searchValue words keybindingWords =
     \<lparr>commandIdMatches =
        matches flt searchValue (command item)
          (or_filter [(\<lambda>w t. matchesWords flt w t False), matchesCamelCase flt]) words,
      commandLabelMatches =
        (if commandLabel item \<noteq> []
         then matches flt searchValue (commandLabel item)
                (\<lambda>word wordToMatchAgainst. matchesWords flt word (commandLabel item) True) words
         else None),
      commandDefaultLabelMatches =
        (case commandDefaultLabel item of
           None \<Rightarrow> None
         | Some l \<Rightarrow>
             if l \<noteq> []
             then matches flt searchValue l
                    (\<lambda>word wordToMatchAgainst. matchesWords flt word l True) words
             else None),
      sourceMatches =
        matches flt searchValue (source item)
          (\<lambda>word wordToMatchAgainst. matchesWords flt word (source item) True) words,
      whenMatches =
        (if when' item \<noteq> []
         then matches flt searchValue (when' item)
                (or_filter [(\<lambda>w t. matchesWords flt w t False), matchesCamelCase flt]) words
         else None),
      keybindingMatches =
        (case keybinding item of
           None \<Rightarrow> None
         | Some kb \<Rightarrow> matchesKeybinding modifierLabels kb searchValue keybindingWords)\<rparr>"

section \<open>The collection model: class KeybindingsEditorModel\<close>

text \<open>
  The state of the model: the snapshot \<open>_keybindingItems\<close> and the modifier labels the
  constructor takes from the three label providers for the operating system.
\<close>

record KeybindingsEditorModel =
  keybindingItems :: "IKeybindingItem list"
  modifierLabels :: ModifierLabels

definition getId :: "IKeybindingItem \<Rightarrow> string" where
  "getId item =
     command item
     @ (case keybinding item of Some kb \<Rightarrow> getAriaLabel kb | None \<Rightarrow> [])
     @ source item @ when' item"

definition hasAnyFieldMatch :: "KeybindingItemMatches \<Rightarrow> bool" where
  "hasAnyFieldMatch km =
     (commandIdMatches km \<noteq> None
      \<or> commandLabelMatches km \<noteq> None
      \<or> commandDefaultLabelMatches km \<noteq> None
      \<or> sourceMatches km \<noteq> None
      \<or> whenMatches km \<noteq> None
      \<or> keybindingMatches km \<noteq> None)"

text \<open>The object literal that \<open>fetchKeybindingItems\<close> pushes.\<close>

definition matchedEntry :: "IKeybindingItem \<Rightarrow> KeybindingItemMatches \<Rightarrow> IKeybindingItemEntry" where
  "matchedEntry item km =
     \<lparr>commandIdMatches = commandIdMatches km,
      commandLabelMatches = commandLabelMatches km,
      commandDefaultLabelMatches = commandDefaultLabelMatches km,
      sourceMatches = sourceMatches km,
      whenMatches = whenMatches km,
      keybindingMatches = keybindingMatches km,
      entry_id = getId item,
      templateId = KEYBINDING_ENTRY_TEMPLATE_ID,
      entry_keybindingItem = item\<rparr>"

text \<open>The object literal of \<open>fetch\<close> for the empty query: no match field.\<close>

definition plainEntry :: "IKeybindingItem \<Rightarrow> IKeybindingItemEntry" where
  "plainEntry item =
     \<lparr>commandIdMatches = None,
      commandLabelMatches = None,
      commandDefaultLabelMatches = None,
      sourceMatches = None,
      whenMatches = None,
      keybindingMatches = None,
      entry_id = getId item,
      templateId = KEYBINDING_ENTRY_TEMPLATE_ID,
      entry_keybindingItem = item\<rparr>"

fun fetchKeybindingItems_loop ::
  "WordFilters \<Rightarrow> ModifierLabels \<Rightarrow> string \<Rightarrow> string list \<Rightarrow> string list
     \<Rightarrow> IKeybindingItem list \<Rightarrow> IKeybindingItemEntry list \<Rightarrow> IKeybindingItemEntry list" where
  "fetchKeybindingItems_loop flt labels searchValue words keybindingWords [] result = result"
| "fetchKeybindingItems_loop flt labels searchValue words keybindingWords (item # items) result =
     (let km = new_KeybindingItemMatches flt labels item searchValue words keybindingWords
      in fetchKeybindingItems_loop flt labels searchValue words keybindingWords items
           (if hasAnyFieldMatch km then result @ [matchedEntry item km] else result))"

definition fetchKeybindingItems ::
  "WordFilters \<Rightarrow> KeybindingsEditorModel \<Rightarrow> string \<Rightarrow> IKeybindingItemEntry list" where
  "fetchKeybindingItems flt model searchValue =
     (let words = split CHR '' '' searchValue;
          keybindingWords =
            (if CHR ''+'' \<in> set searchValue then split CHR ''+'' searchValue else words)
      in fetchKeybindingItems_loop flt (modifierLabels model) searchValue words keybindingWords
           (keybindingItems model) [])"

definition fetch ::
  "WordFilters \<Rightarrow> KeybindingsEditorModel \<Rightarrow> string \<Rightarrow> IKeybindingItemEntry list" where
  "fetch flt model searchValue =
     (let searchValue' = trim searchValue
      in if searchValue' \<noteq> [] then fetchKeybindingItems flt model searchValue'
         else map plainEntry (keybindingItems model))"

text \<open>
  \<open>compareKeybindingData\<close>. \<open>String.prototype.localeCompare\<close> depends on the locale of
  the host: it is a parameter. The result is a number: \<open>-1\<close>, \<open>1\<close> or what
  \<open>localeCompare\<close> returns.
\<close>

definition compareKeybindingData ::
  "(string \<Rightarrow> string \<Rightarrow> int) \<Rightarrow> IKeybindingItem \<Rightarrow> IKeybindingItem \<Rightarrow> int" where
  "compareKeybindingData localeCompare a b =
     (if keybinding a \<noteq> None \<and> keybinding b = None then - 1
      else if keybinding b \<noteq> None \<and> keybinding a = None then 1
      else if commandLabel a \<noteq> [] \<and> commandLabel b = [] then - 1
      else if commandLabel b \<noteq> [] \<and> commandLabel a = [] then 1
      else if commandLabel a \<noteq> [] \<and> commandLabel b \<noteq> []
              \<and> commandLabel a \<noteq> commandLabel b
      then localeCompare (commandLabel a) (commandLabel b)
      else if command a = command b
      then (if isDefault (keybindingItem a) then 1 else - 1)
      else localeCompare (command a) (command b))"

text \<open>
  What \<open>resolve\<close> and \<open>toKeybindingEntry\<close> read from the services and registries, none
  of them under src/: they are parameters. \<open>menuCommand.title\<close> is a string or an
  \<open>ILocalizedString\<close>.
\<close>

record SyncActionDescriptor =
  sad_id :: string
  sad_label :: string

datatype CommandTitle =
  TitleString string
| TitleLocalized (title_value: string) (title_original: string)

record ICommandAction =
  title :: CommandTitle

record EditorAction =
  ea_id :: string
  ea_label :: string

record Services =
  getKeybindings :: "ResolvedKeybindingItem list"
  getDefaultKeybindings :: "ResolvedKeybindingItem list"
  getAllUnboundCommands :: "(string \<rightharpoonup> bool) \<Rightarrow> string list"
  getWorkbenchAction :: "string \<Rightarrow> SyncActionDescriptor option"
  getAlias :: "string \<Rightarrow> string option"
  getCommand :: "string \<Rightarrow> ICommandAction option"
  getEditorActions :: "EditorAction list"
  languageIsDefault :: bool
  localeCompare :: "string \<Rightarrow> string \<Rightarrow> int"

text \<open>
  Modelled from the spec: \<open>localize\<close> of vs/nls is not under src/. The spec names the two
  sources Default and User: \<open>localize\<close> returns the message it is given.
\<close>

definition localize :: "string \<Rightarrow> string \<Rightarrow> string" where
  "localize key message = message"

definition getCommandDefaultLabel ::
  "Services \<Rightarrow> SyncActionDescriptor option \<Rightarrow> ICommandAction option \<Rightarrow> string option" where
  "getCommandDefaultLabel svc workbenchAction menuCommand =
     (if \<not> languageIsDefault svc then
        (case workbenchAction of
           Some wa \<Rightarrow> getAlias svc (sad_id wa)
         | None \<Rightarrow>
             (case menuCommand of
                Some mc \<Rightarrow>
                  (case title mc of
                     TitleLocalized v orig \<Rightarrow> if orig \<noteq> [] then Some orig else None
                   | TitleString t \<Rightarrow> None)
              | None \<Rightarrow> None))
      else None)"

definition getCommandLabel ::
  "SyncActionDescriptor option \<Rightarrow> ICommandAction option \<Rightarrow> EditorAction option \<Rightarrow> string" where
  "getCommandLabel workbenchAction menuCommand editorAction =
     (case workbenchAction of
        Some wa \<Rightarrow> sad_label wa
      | None \<Rightarrow>
          (case menuCommand of
             Some mc \<Rightarrow> (case title mc of TitleString t \<Rightarrow> t | TitleLocalized v orig \<Rightarrow> v)
           | None \<Rightarrow>
               (case editorAction of
                  Some ea \<Rightarrow> ea_label ea
                | None \<Rightarrow> [])))"

definition toKeybindingEntry ::
  "Services \<Rightarrow> string \<Rightarrow> ResolvedKeybindingItem \<Rightarrow> (string \<rightharpoonup> EditorAction) \<Rightarrow> IKeybindingItem" where
  "toKeybindingEntry svc cmd item editorActions =
     (let workbenchAction = getWorkbenchAction svc cmd;
          menuCommand = getCommand svc cmd;
          editorAction = editorActions cmd
      in \<lparr>keybinding = resolvedKeybinding item,
          keybindingItem = item,
          commandLabel = getCommandLabel workbenchAction menuCommand editorAction,
          commandDefaultLabel = getCommandDefaultLabel svc workbenchAction menuCommand,
          command = cmd,
          source = (if isDefault item then localize ''default'' ''Default''
                    else localize ''user'' ''User''),
          when' = (case rki_when item of Some w \<Rightarrow> w | None \<Rightarrow> [])\<rparr>)"

text \<open>The \<open>reduce\<close> that builds \<open>editorActions\<close>, keyed by the action's id.\<close>

definition editorActionsOf :: "EditorAction list \<Rightarrow> (string \<rightharpoonup> EditorAction)" where
  "editorActionsOf eas = fold (\<lambda>editorAction acc. acc(ea_id editorAction \<mapsto> editorAction)) eas Map.empty"

text \<open>
  The first loop of \<open>resolve\<close>: the state is \<open>_keybindingItems\<close> and \<open>boundCommands\<close>.
  A binding whose command is \<open>null\<close> or empty is skipped.
\<close>

fun resolve_bound ::
  "Services \<Rightarrow> (string \<rightharpoonup> EditorAction) \<Rightarrow> ResolvedKeybindingItem list
     \<Rightarrow> IKeybindingItem list \<times> (string \<rightharpoonup> bool)
     \<Rightarrow> IKeybindingItem list \<times> (string \<rightharpoonup> bool)" where
  "resolve_bound svc editorActions [] st = st"
| "resolve_bound svc editorActions (kbi # rest) (items, boundCommands) =
     (case rki_command kbi of
        None \<Rightarrow> resolve_bound svc editorActions rest (items, boundCommands)
      | Some cmd \<Rightarrow>
          if cmd \<noteq> []
          then resolve_bound svc editorActions rest
                 (items @ [toKeybindingEntry svc cmd kbi editorActions],
                  boundCommands(cmd \<mapsto> True))
          else resolve_bound svc editorActions rest (items, boundCommands))"

text \<open>The second loop: one entry for each unbound command.\<close>

fun resolve_unbound ::
  "Services \<Rightarrow> (string \<rightharpoonup> EditorAction) \<Rightarrow> string option list \<Rightarrow> string list
     \<Rightarrow> IKeybindingItem list \<Rightarrow> IKeybindingItem list" where
  "resolve_unbound svc editorActions commandsWithDefaultKeybindings [] items = items"
| "resolve_unbound svc editorActions commandsWithDefaultKeybindings (cmd # rest) items =
     (let kbi = new_ResolvedKeybindingItem None (Some cmd) None None
                  (Some cmd \<notin> set commandsWithDefaultKeybindings)
      in resolve_unbound svc editorActions commandsWithDefaultKeybindings rest
           (items @ [toKeybindingEntry svc cmd kbi editorActions]))"

text \<open>
  \<open>Array.prototype.sort\<close> with a comparator: the result is a permutation of the array;
  which one, for a comparator that is not a consistent order, is left to the engine.
  The model inserts from the right, before the first element the comparator does not
  put first.
\<close>

fun insert_by :: "('a \<Rightarrow> 'a \<Rightarrow> int) \<Rightarrow> 'a \<Rightarrow> 'a list \<Rightarrow> 'a list" where
  "insert_by cmp x [] = [x]"
| "insert_by cmp x (y # ys) = (if cmp x y \<le> 0 then x # y # ys else y # insert_by cmp x ys)"

definition sort_by :: "('a \<Rightarrow> 'a \<Rightarrow> int) \<Rightarrow> 'a list \<Rightarrow> 'a list" where
  "sort_by cmp xs = foldr (insert_by cmp) xs []"

text \<open>The items before \<open>resolve\<close> sorts them.\<close>

definition resolve_items :: "Services \<Rightarrow> IKeybindingItem list" where
  "resolve_items svc =
     (let editorActions = editorActionsOf (getEditorActions svc);
          (items, boundCommands) =
            resolve_bound svc editorActions (getKeybindings svc) ([], Map.empty);
          commandsWithDefaultKeybindings = map rki_command (getDefaultKeybindings svc)
      in resolve_unbound svc editorActions commandsWithDefaultKeybindings
           (getAllUnboundCommands svc boundCommands) items)"

text \<open>The commands bound by the current keybindings: the keys of \<open>boundCommands\<close>.\<close>

definition boundCommandsOf :: "Services \<Rightarrow> (string \<rightharpoonup> bool)" where
  "boundCommandsOf svc =
     snd (resolve_bound svc (editorActionsOf (getEditorActions svc)) (getKeybindings svc)
            ([], Map.empty))"

text \<open>\<open>resolve\<close>: the model with its new snapshot.\<close>

definition resolve :: "Services \<Rightarrow> KeybindingsEditorModel \<Rightarrow> KeybindingsEditorModel" where
  "resolve svc model =
     model\<lparr>keybindingItems :=
       sort_by (compareKeybindingData (localeCompare svc)) (resolve_items svc)\<rparr>"

text \<open>The value of a decimal digit: the inverse of \<open>digitChar\<close>, for the proofs.\<close>

definition digitVal :: "char \<Rightarrow> nat" where
  "digitVal c = (case map_of (zip ''0123456789'' [0, 1, 2, 3, 4, 5, 6, 7, 8, 9]) c of Some d \<Rightarrow> d | None \<Rightarrow> 0)"

section \<open>The vocabulary of the claims\<close>

text \<open>\<open>word\<close> is a prefix of \<open>text\<close>, case-insensitively.\<close>

definition prefixOf_ci :: "string \<Rightarrow> string \<Rightarrow> bool" where
  "prefixOf_ci word text =
     (length word \<le> length text \<and> toLowerCase (take (length word) text) = toLowerCase word)"

text \<open>\<open>word\<close> occurs in \<open>text\<close> as a contiguous substring, case-insensitively.\<close>

definition substringOf_ci :: "string \<Rightarrow> string \<Rightarrow> bool" where
  "substringOf_ci word text = (\<exists>pre post. toLowerCase text = pre @ toLowerCase word @ post)"

text \<open>
  A word matches a part on some flag: what \<open>matchPart\<close> returns. It does not depend on
  the match object (lemma \<open>matchPart_fst_indep\<close>).
\<close>

definition wordMatchesPart :: "ModifierLabels \<Rightarrow> KeybindingPart option \<Rightarrow> string \<Rightarrow> bool" where
  "wordMatchesPart labels part w = fst (matchPart labels part emptyMatch w)"

text \<open>
  The claim's reading of the modifier check: the word is a case-insensitive prefix of the
  modifier's display string in at least one of the three styles.
\<close>

definition wordStartsLabel :: "ModifierLabels \<Rightarrow> (ModLabels \<Rightarrow> string) \<Rightarrow> string \<Rightarrow> bool" where
  "wordStartsLabel labels key w =
     (prefixOf_ci w (key (ui labels)) \<or> prefixOf_ci w (key (aria labels))
      \<or> prefixOf_ci w (key (user labels)))"

text \<open>
  What the source computes: the display string of at least one style is a
  case-insensitive prefix of the word, and the word is not empty.
\<close>

definition labelStartsWord :: "ModifierLabels \<Rightarrow> (ModLabels \<Rightarrow> string) \<Rightarrow> string \<Rightarrow> bool" where
  "labelStartsWord labels key w =
     (w \<noteq> [] \<and> (prefixOf_ci (key (ui labels)) w \<or> prefixOf_ci (key (aria labels)) w
        \<or> prefixOf_ci (key (user labels)) w))"

text \<open>
  The claim's reading of the key-code check, for the label \<open>L\<close> without modifiers:
  one of the two has length 1 and they are equal case-insensitively, or both are longer
  than 1 and the word occurs in \<open>L\<close>.
\<close>

definition keyCodeMatch_claimed :: "string \<Rightarrow> string \<Rightarrow> bool" where
  "keyCodeMatch_claimed L w =
     ((length L = 1 \<or> length w = 1) \<and> toLowerCase L = toLowerCase w
      \<or> (length L > 1 \<and> length w > 1 \<and> substringOf_ci w L))"

text \<open>The words \<open>fetchKeybindingItems\<close> passes to \<open>matchesKeybinding\<close>.\<close>

definition searchKeybindingWords :: "string \<Rightarrow> string list" where
  "searchKeybindingWords searchValue =
     (if CHR ''+'' \<in> set searchValue then split CHR ''+'' searchValue
      else split CHR '' '' searchValue)"

section \<open>Example data\<close>

text \<open>
  The modifier labels of the three providers for Windows, in the default language, and
  some keybindings as that platform labels them. A part \<open>ctrlPart k\<close> carries the ctrl
  modifier only, on the key whose accessible label is \<open>k\<close>.
\<close>

definition windowsLabels :: ModifierLabels where
  "windowsLabels =
     \<lparr>ui = \<lparr>ctrlKey_label = ''Ctrl'', shiftKey_label = ''Shift'', altKey_label = ''Alt'',
             metaKey_label = ''Windows''\<rparr>,
      aria = \<lparr>ctrlKey_label = ''Control'', shiftKey_label = ''Shift'', altKey_label = ''Alt'',
               metaKey_label = ''Windows''\<rparr>,
      user = \<lparr>ctrlKey_label = ''ctrl'', shiftKey_label = ''shift'', altKey_label = ''alt'',
               metaKey_label = ''win''\<rparr>\<rparr>"

definition ctrlPart :: "string \<Rightarrow> KeybindingPart" where
  "ctrlPart k =
     \<lparr>hasCtrlModifier = True, hasShiftModifier = False, hasAltModifier = False,
      hasMetaModifier = False, getAriaLabelWithoutModifiers = k\<rparr>"

definition ctrlZ :: ResolvedKeybinding where
  "ctrlZ = \<lparr>getAriaLabel = ''Control+Z'', getLabel = ''Ctrl+Z'',
            getParts = (Some (ctrlPart ''Z''), None)\<rparr>"

definition ctrlX :: ResolvedKeybinding where
  "ctrlX = \<lparr>getAriaLabel = ''Control+X'', getLabel = ''Ctrl+X'',
            getParts = (Some (ctrlPart ''X''), None)\<rparr>"

definition ctrlK_ctrlC :: ResolvedKeybinding where
  "ctrlK_ctrlC = \<lparr>getAriaLabel = ''Control+K Control+C'', getLabel = ''Ctrl+K Ctrl+C'',
            getParts = (Some (ctrlPart ''K''), Some (ctrlPart ''C''))\<rparr>"

text \<open>
  An instance of the parameter \<open>WordFilters\<close> in which the two primitives find nothing.
  The examples that use it are decided by the prefix, substring and keybinding paths.
\<close>

definition noWordFilters :: WordFilters where
  "noWordFilters = \<lparr>matchesWords = (\<lambda>word target contiguous. None),
                     matchesCamelCase = (\<lambda>word camelCaseWord. None)\<rparr>"

definition ctrlY :: ResolvedKeybinding where
  "ctrlY = \<lparr>getAriaLabel = ''Control+Y'', getLabel = ''Ctrl+Y'',
            getParts = (Some (ctrlPart ''Y''), None)\<rparr>"

text \<open>
  The entry of the spec's example: the command \<open>editor.action.undo\<close>, labelled \<open>Undo\<close>,
  from the default keybindings, bound to the combination \<open>kb\<close>.
\<close>

definition undoItem :: "ResolvedKeybinding \<Rightarrow> IKeybindingItem" where
  "undoItem kb =
     \<lparr>keybinding = Some kb,
      keybindingItem = new_ResolvedKeybindingItem (Some kb) (Some ''editor.action.undo'') None None True,
      commandLabel = ''Undo'',
      commandDefaultLabel = None,
      command = ''editor.action.undo'',
      source = ''Default'',
      when' = []\<rparr>"

definition redoItem :: IKeybindingItem where
  "redoItem =
     \<lparr>keybinding = Some ctrlY,
      keybindingItem = new_ResolvedKeybindingItem (Some ctrlY) (Some ''editor.action.redo'') None None True,
      commandLabel = ''Redo'',
      commandDefaultLabel = None,
      command = ''editor.action.redo'',
      source = ''Default'',
      when' = []\<rparr>"

definition exampleModel :: KeybindingsEditorModel where
  "exampleModel = \<lparr>keybindingItems = [undoItem ctrlZ, redoItem], modifierLabels = windowsLabels\<rparr>"

text \<open>The snapshot of the spec's example: the single entry \<open>undoItem kb\<close>.\<close>

definition undoModel :: "ModifierLabels \<Rightarrow> ResolvedKeybinding \<Rightarrow> KeybindingsEditorModel" where
  "undoModel labels kb = \<lparr>keybindingItems = [undoItem kb], modifierLabels = labels\<rparr>"

text \<open>
  The labels of a localised build, in which no display string of ctrl+z is \<open>Ctrl+Z\<close>;
  the user-settings style is not localised.
\<close>

definition localizedLabels :: ModifierLabels where
  "localizedLabels =
     \<lparr>ui = \<lparr>ctrlKey_label = ''Strg'', shiftKey_label = ''Umschalt'', altKey_label = ''Alt'',
             metaKey_label = ''Windows''\<rparr>,
      aria = \<lparr>ctrlKey_label = ''Steuerung'', shiftKey_label = ''Umschalt'', altKey_label = ''Alt'',
               metaKey_label = ''Windows''\<rparr>,
      user = \<lparr>ctrlKey_label = ''ctrl'', shiftKey_label = ''shift'', altKey_label = ''alt'',
               metaKey_label = ''win''\<rparr>\<rparr>"

definition ctrlZ_localized :: ResolvedKeybinding where
  "ctrlZ_localized = \<lparr>getAriaLabel = ''Steuerung+Z'', getLabel = ''Strg+Z'',
            getParts = (Some (ctrlPart ''Z''), None)\<rparr>"

text \<open>
  An entry with the given combination, command, label and \<open>isDefault\<close>, as
  \<open>toKeybindingEntry\<close> builds it.
\<close>

definition labelledItem :: "ResolvedKeybinding option \<Rightarrow> string \<Rightarrow> string \<Rightarrow> bool \<Rightarrow> IKeybindingItem" where
  "labelledItem kb cmd label isDef =
     \<lparr>keybinding = kb,
      keybindingItem = new_ResolvedKeybindingItem kb (Some cmd) None None isDef,
      commandLabel = label,
      commandDefaultLabel = None,
      command = cmd,
      source = (if isDef then ''Default'' else ''User''),
      when' = []\<rparr>"

text \<open>
  Services for an example: undo and redo have default keybindings, the user has removed
  the one of redo, and a third command has no keybinding at all. No label is registered.
\<close>

definition undoBinding :: ResolvedKeybindingItem where
  "undoBinding = new_ResolvedKeybindingItem (Some ctrlZ) (Some ''editor.action.undo'') None None True"

definition redoBinding :: ResolvedKeybindingItem where
  "redoBinding = new_ResolvedKeybindingItem (Some ctrlY) (Some ''editor.action.redo'') None None True"

definition exampleServices :: Services where
  "exampleServices =
     \<lparr>getKeybindings = [undoBinding],
      getDefaultKeybindings = [undoBinding, redoBinding],
      getAllUnboundCommands =
        (\<lambda>boundCommands. filter (\<lambda>c. boundCommands c = None)
           [''editor.action.undo'', ''editor.action.redo'', ''workbench.action.files.save'']),
      getWorkbenchAction = (\<lambda>c. None),
      getAlias = (\<lambda>c. None),
      getCommand = (\<lambda>c. None),
      getEditorActions = [],
      languageIsDefault = True,
      localeCompare = compareUnits\<rparr>"

text \<open>
  A command with two default keybindings: copy, on ctrl+c and on ctrl+insert. No label is
  registered for it and no command is unbound.
\<close>

definition ctrlC :: ResolvedKeybinding where
  "ctrlC = \<lparr>getAriaLabel = ''Control+C'', getLabel = ''Ctrl+C'',
            getParts = (Some (ctrlPart ''C''), None)\<rparr>"

definition ctrlInsert :: ResolvedKeybinding where
  "ctrlInsert = \<lparr>getAriaLabel = ''Control+Insert'', getLabel = ''Ctrl+Insert'',
            getParts = (Some (ctrlPart ''Insert''), None)\<rparr>"

definition copyBinding :: "ResolvedKeybinding \<Rightarrow> ResolvedKeybindingItem" where
  "copyBinding kb =
     new_ResolvedKeybindingItem (Some kb) (Some ''editor.action.clipboardCopyAction'') None None
       True"

definition copyItem :: "ResolvedKeybinding \<Rightarrow> IKeybindingItem" where
  "copyItem kb = labelledItem (Some kb) ''editor.action.clipboardCopyAction'' [] True"

definition copyServices :: Services where
  "copyServices =
     \<lparr>getKeybindings = [copyBinding ctrlC, copyBinding ctrlInsert],
      getDefaultKeybindings = [copyBinding ctrlC, copyBinding ctrlInsert],
      getAllUnboundCommands = (\<lambda>boundCommands. []),
      getWorkbenchAction = (\<lambda>c. None),
      getAlias = (\<lambda>c. None),
      getCommand = (\<lambda>c. None),
      getEditorActions = [],
      languageIsDefault = True,
      localeCompare = compareUnits\<rparr>"

section \<open>Properties of the helpers\<close>

lemma distinct_seen_subset: "set (distinct_seen keyFn seen xs) \<subseteq> set xs"
  by (induction xs arbitrary: seen) auto

lemma distinct_seen_keys_fresh: "x \<in> set (distinct_seen keyFn seen xs) \<Longrightarrow> keyFn x \<notin> seen"
  by (induction xs arbitrary: seen) (auto split: if_splits)

lemma distinct_seen_keys: "distinct (map keyFn (distinct_seen keyFn seen xs))"
proof (induction xs arbitrary: seen)
  case Nil
  then show ?case by simp
next
  case (Cons x xs)
  show ?case
  proof (cases "keyFn x \<in> seen")
    case True
    then show ?thesis using Cons.IH by simp
  next
    case False
    have "keyFn x \<notin> keyFn ` set (distinct_seen keyFn (insert (keyFn x) seen) xs)"
    proof
      assume "keyFn x \<in> keyFn ` set (distinct_seen keyFn (insert (keyFn x) seen) xs)"
      then obtain y where
        "y \<in> set (distinct_seen keyFn (insert (keyFn x) seen) xs)" "keyFn y = keyFn x"
        by auto
      then show False
        using distinct_seen_keys_fresh [of y keyFn "insert (keyFn x) seen" xs] by simp
    qed
    then show ?thesis using False Cons.IH [of "insert (keyFn x) seen"] by simp
  qed
qed

lemma distinct_by_distinct: "distinct (distinct_by keyFn xs)"
  unfolding distinct_by_def using distinct_seen_keys [of keyFn "{}" xs]
  by (rule distinct_map [THEN iffD1, THEN conjunct1])

lemma distinct_seen_complete:
  "inj keyFn \<Longrightarrow> set (distinct_seen keyFn seen xs) = {x \<in> set xs. keyFn x \<notin> seen}"
proof (induction xs arbitrary: seen)
  case Nil
  then show ?case by simp
next
  case (Cons x xs)
  then show ?case by (auto simp: inj_eq)
qed

lemma distinct_by_set: "inj keyFn \<Longrightarrow> set (distinct_by keyFn xs) = set xs"
  by (simp add: distinct_by_def distinct_seen_complete)

lemma digit_cases: "d < 10 \<Longrightarrow> d \<in> {0, 1, 2, 3, 4, 5, 6, 7, 8, 9::nat}"
  by auto

lemma digitVal_digitChar: "d < 10 \<Longrightarrow> digitVal (digitChar d) = d"
  using digit_cases [of d] by (auto simp: digitVal_def digitChar_def)

lemma digitChar_not_dot: "d < 10 \<Longrightarrow> digitChar d \<noteq> CHR ''.''"
  using digit_cases [of d] by (auto simp: digitChar_def)

lemma numberToString_no_dot: "CHR ''.'' \<notin> set (numberToString n)"
proof (induction n rule: numberToString.induct)
  case (1 n)
  show ?case
  proof (cases "n < 10")
    case True
    then show ?thesis using digitChar_not_dot [of n] by (subst numberToString.simps) auto
  next
    case False
    then show ?thesis using 1 digitChar_not_dot [of "n mod 10"]
      by (subst numberToString.simps) auto
  qed
qed

lemma numberToString_value: "foldl (\<lambda>acc c. 10 * acc + digitVal c) 0 (numberToString n) = n"
proof (induction n rule: numberToString.induct)
  case (1 n)
  show ?case
  proof (cases "n < 10")
    case True
    then show ?thesis by (subst numberToString.simps) (simp add: digitVal_digitChar)
  next
    case False
    then show ?thesis using 1
      by (subst numberToString.simps) (simp add: digitVal_digitChar)
  qed
qed

lemma numberToString_inj: "numberToString m = numberToString n \<Longrightarrow> m = n"
  by (metis numberToString_value)

lemma append_sep_eq:
  "c \<notin> set a \<Longrightarrow> c \<notin> set a' \<Longrightarrow> a @ c # b = a' @ c # b' \<Longrightarrow> a = a' \<and> b = b'"
proof (induction a arbitrary: a')
  case Nil
  then show ?case by (cases a') auto
next
  case (Cons x xs)
  then show ?case by (cases a') auto
qed

lemma matchKey_inj: "inj matchKey"
proof (rule injI)
  fix x y :: IMatch
  assume "matchKey x = matchKey y"
  then have "numberToString (start x) @ CHR ''.'' # numberToString (end' x)
      = numberToString (start y) @ CHR ''.'' # numberToString (end' y)"
    by (simp add: matchKey_def)
  from append_sep_eq [OF numberToString_no_dot numberToString_no_dot this]
  have "start x = start y" "end' x = end' y"
    by (auto dest: numberToString_inj)
  then show "x = y" by simp
qed

lemma filterAndSort_set:
  "set (filterAndSort ms) = {m \<in> set ms. \<forall>m' \<in> set ms. \<not> covers m' m}"
  by (auto simp: filterAndSort_def distinct_by_set [OF matchKey_inj] list_ex_iff)

lemma covers_total:
  "m \<noteq> m' \<Longrightarrow> start m = start m' \<Longrightarrow> covers m m' \<or> covers m' (m :: IMatch)"
proof -
  assume a: "m \<noteq> m'" "start m = start m'"
  then have "end' m \<noteq> end' m'" by (cases m, cases m') simp
  then show ?thesis using a(2) unfolding covers_def by linarith
qed

lemma filterAndSort_starts_distinct: "distinct (map start (filterAndSort ms))"
proof -
  let ?xs = "filter (\<lambda>match. \<not> list_ex (\<lambda>m. covers m match) ms) (distinct_by matchKey ms)"
  have d: "distinct ?xs" by (simp add: distinct_by_distinct)
  have "inj_on start (set ?xs)"
  proof (rule inj_onI)
    fix x y assume x: "x \<in> set ?xs" and y: "y \<in> set ?xs" and s: "start x = start y"
    have xin: "x \<in> set ms" "y \<in> set ms"
      using x y distinct_seen_subset [of matchKey "{}" ms] by (auto simp: distinct_by_def)
    have "\<not> covers y x" "\<not> covers x y" using x y xin by (auto simp: list_ex_iff)
    then show "x = y" using covers_total [of x y] s by auto
  qed
  then have "distinct (map start ?xs)" using d by (simp add: distinct_map)
  then have "distinct (map start (sort_key start ?xs))"
    by (simp add: distinct_map)
  then show ?thesis by (simp add: filterAndSort_def)
qed


lemma filterAndSort_sorted: "sorted (map start (filterAndSort ms))"
  by (simp add: filterAndSort_def)

text \<open>
  Claim C6. For every list of match spans, \<open>filterAndSort\<close> returns a list with no two
  spans of the same start and end; with no span \<open>[s, e)\<close> that another span
  \<open>[s', e')\<close> of the input, different in value, covers (\<open>s' \<le> s\<close> and \<open>e' \<ge> e\<close>);
  sorted by start offset, ascending. Nothing is merged: every span of the result is a
  span of the input, and every span of the input that no other span covers is kept.
\<close>

theorem filterAndSort_spec:
  "distinct (filterAndSort ms)
   \<and> (\<forall>m \<in> set (filterAndSort ms). \<forall>m' \<in> set ms.
         \<not> (m' \<noteq> m \<and> start m' \<le> start m \<and> end' m' \<ge> end' m))
   \<and> sorted (map start (filterAndSort ms))
   \<and> set (filterAndSort ms) \<subseteq> set ms
   \<and> (\<forall>m \<in> set ms.
         (\<forall>m' \<in> set ms. \<not> (m' \<noteq> m \<and> start m' \<le> start m \<and> end' m' \<ge> end' m))
         \<longrightarrow> m \<in> set (filterAndSort ms))"
proof -
  have cov: "covers m' m \<longleftrightarrow> (m' \<noteq> m \<and> start m' \<le> start m \<and> end' m' \<ge> end' m)"
    for m m' :: IMatch
    by (cases m, cases m') (simp add: covers_def)
  have d: "distinct (filterAndSort ms)"
    using filterAndSort_starts_distinct [of ms] by (simp add: distinct_map)
  have s: "set (filterAndSort ms)
      = {m \<in> set ms. \<forall>m' \<in> set ms.
           \<not> (m' \<noteq> m \<and> start m' \<le> start m \<and> end' m' \<ge> end' m)}"
    by (simp add: filterAndSort_set cov)
  show ?thesis
    using d filterAndSort_sorted [of ms] by (simp add: s)
qed

theorem filterAndSort_spec_witness:
  "filterAndSort
     [\<lparr>start = 1, end' = 4\<rparr>, \<lparr>start = 1, end' = 4\<rparr>, \<lparr>start = 2, end' = 3\<rparr>,
      \<lparr>start = 0, end' = 2\<rparr>, \<lparr>start = 12, end' = 14\<rparr>]
     = [\<lparr>start = 0, end' = 2\<rparr>, \<lparr>start = 1, end' = 4\<rparr>, \<lparr>start = 12, end' = 14\<rparr>]
   \<and> distinct (filterAndSort
     [\<lparr>start = 1, end' = 4\<rparr>, \<lparr>start = 1, end' = 4\<rparr>, \<lparr>start = 2, end' = 3\<rparr>,
      \<lparr>start = 0, end' = 2\<rparr>, \<lparr>start = 12, end' = 14\<rparr>])
   \<and> sorted (map start (filterAndSort
     [\<lparr>start = 1, end' = 4\<rparr>, \<lparr>start = 1, end' = 4\<rparr>, \<lparr>start = 2, end' = 3\<rparr>,
      \<lparr>start = 0, end' = 2\<rparr>, \<lparr>start = 12, end' = 14\<rparr>]))"
  using filterAndSort_spec [of
     "[\<lparr>start = 1, end' = 4\<rparr>, \<lparr>start = 1, end' = 4\<rparr>, \<lparr>start = 2, end' = 3\<rparr>,
      \<lparr>start = 0, end' = 2\<rparr>, \<lparr>start = 12, end' = 14\<rparr>]"]
  by (simp add: filterAndSort_def distinct_by_def matchKey_def numberToString.simps
      digitChar_def covers_def)

section \<open>Properties of the keybinding matcher\<close>

lemma matchesPrefix_iff:
  "matchesPrefix word text \<noteq> None \<longleftrightarrow> text \<noteq> [] \<and> prefixOf_ci word text"
  by (auto simp: matchesPrefix_def prefixOf_ci_def)

lemma compareUnits_zero: "compareUnits xs ys = 0 \<longleftrightarrow> xs = ys"
  by (induction xs ys rule: compareUnits.induct) auto

lemma compareIgnoreCase_zero: "compareIgnoreCase a b = 0 \<longleftrightarrow> toLowerCase a = toLowerCase b"
  by (simp add: compareIgnoreCase_def compareUnits_zero)

lemma indexOf_from_None: "indexOf_from i s w = None \<longleftrightarrow> (\<forall>pre post. s \<noteq> pre @ w @ post)"
proof (induction s arbitrary: i)
  case Nil
  then show ?case by auto
next
  case (Cons c cs)
  show ?case
  proof (cases "take (length w) (c # cs) = w")
    case True
    then have "c # cs = [] @ w @ drop (length w) (c # cs)"
      by (metis append_Nil append_take_drop_id)
    then show ?thesis using True by (simp del: append_Nil) blast
  next
    case False
    have "(\<exists>pre post. c # cs = pre @ w @ post) \<longleftrightarrow> (\<exists>pre post. cs = pre @ w @ post)"
    proof
      assume "\<exists>pre post. c # cs = pre @ w @ post"
      then obtain pre post where e: "c # cs = pre @ w @ post" by blast
      show "\<exists>pre post. cs = pre @ w @ post"
      proof (cases pre)
        case Nil
        then have "take (length w) (c # cs) = w" using e by simp
        then show ?thesis using False by simp
      next
        case (Cons p ps)
        then show ?thesis using e by auto
      qed
    next
      assume "\<exists>pre post. cs = pre @ w @ post"
      then obtain pre post where "cs = pre @ w @ post" by blast
      then have "c # cs = (c # pre) @ w @ post" by simp
      then show "\<exists>pre post. c # cs = pre @ w @ post" by blast
    qed
    then have "(\<forall>pre post. c # cs \<noteq> pre @ w @ post) \<longleftrightarrow> (\<forall>pre post. cs \<noteq> pre @ w @ post)"
      by blast
    then show ?thesis using False Cons.IH [of "Suc i"] by simp
  qed
qed

lemma matchesContiguousSubString_iff:
  "matchesContiguousSubString word text \<noteq> None \<longleftrightarrow> substringOf_ci word text"
proof -
  have "matchesContiguousSubString word text = None
      \<longleftrightarrow> indexOf_from 0 (toLowerCase text) (toLowerCase word) = None"
    by (simp add: matchesContiguousSubString_def indexOf_def split: option.splits)
  then show ?thesis by (simp add: indexOf_from_None substringOf_ci_def)
qed

lemma matchPart_None: "matchPart labels None m w = (False, m)"
  by (simp add: matchPart_def matchesMetaModifier_def matchesCtrlModifier_def
      matchesShiftModifier_def matchesAltModifier_def matchesKeyCode_def)

lemma matchPart_fst:
  "fst (matchPart labels part m w) \<longleftrightarrow>
     matchesMetaModifier labels part w \<or> matchesCtrlModifier labels part w
     \<or> matchesShiftModifier labels part w \<or> matchesAltModifier labels part w
     \<or> matchesKeyCode part w"
  by (simp add: matchPart_def Let_def)

lemma matchPart_snd:
  "snd (matchPart labels part m w) =
     \<lparr>ctrlKey = ctrlKey m \<or> matchesCtrlModifier labels part w,
      shiftKey = shiftKey m \<or> matchesShiftModifier labels part w,
      altKey = altKey m \<or> matchesAltModifier labels part w,
      metaKey = metaKey m \<or> matchesMetaModifier labels part w,
      keyCode = keyCode m \<or> matchesKeyCode part w\<rparr>"
  by (cases m) (simp add: matchPart_def Let_def)


lemma matchPart_fst_indep:
  "fst (matchPart labels part m w) = wordMatchesPart labels part w"
  by (simp add: wordMatchesPart_def matchPart_fst)

lemma matchesKeybinding_loop_eq:
  "matchesKeybinding_loop labels fp cp ws (f, c, mw) =
     (fold (\<lambda>w m. snd (matchPart labels fp m w)) ws f,
      fold (\<lambda>w m. snd (matchPart labels cp m w)) ws c,
      mw @ filter (\<lambda>w. wordMatchesPart labels fp w \<or> wordMatchesPart labels cp w) ws)"
proof (induction ws arbitrary: f c mw)
  case Nil
  then show ?case by simp
next
  case (Cons w ws)
  obtain b1 f' where m1: "matchPart labels fp f w = (b1, f')" by (cases "matchPart labels fp f w")
  obtain b2 c' where m2: "matchPart labels cp c w = (b2, c')" by (cases "matchPart labels cp c w")
  have b1: "b1 = wordMatchesPart labels fp w"
    using matchPart_fst_indep [of labels fp f w] m1 by simp
  have b2: "b2 = wordMatchesPart labels cp w"
    using matchPart_fst_indep [of labels cp c w] m2 by simp
  show ?case
    using m1 m2 b1 b2 by (simp add: Cons.IH)
qed

lemma matchesKeybinding_slow:
  assumes "compareIgnoreCase q (getAriaLabel kb) \<noteq> 0"
    and "compareIgnoreCase q (getLabel kb) \<noteq> 0"
  shows "matchesKeybinding labels kb q ws =
     (let f = fold (\<lambda>w m. snd (matchPart labels (fst (getParts kb)) m w)) ws emptyMatch;
          c = fold (\<lambda>w m. snd (matchPart labels (snd (getParts kb)) m w)) ws emptyMatch
      in if \<exists>w \<in> set ws. \<not> (wordMatchesPart labels (fst (getParts kb)) w
                              \<or> wordMatchesPart labels (snd (getParts kb)) w)
         then None
         else if hasAnyMatch f \<or> hasAnyMatch c then Some \<lparr>firstPart = f, chordPart = c\<rparr>
         else None)"
proof -
  obtain fp cp where p: "getParts kb = (fp, cp)" by (cases "getParts kb")
  let ?P = "\<lambda>w. wordMatchesPart labels fp w \<or> wordMatchesPart labels cp w"
  have len: "length (filter ?P ws) \<noteq> length ws \<longleftrightarrow> (\<exists>w \<in> set ws. \<not> ?P w)"
  proof
    assume "length (filter ?P ws) \<noteq> length ws"
    then have ne: "filter ?P ws \<noteq> ws" by auto
    show "\<exists>w \<in> set ws. \<not> ?P w"
    proof (rule ccontr)
      assume "\<not> (\<exists>w \<in> set ws. \<not> ?P w)"
      then have "\<forall>w \<in> set ws. ?P w" by blast
      then have "filter ?P ws = ws" by (rule filter_True)
      with ne show False by simp
    qed
  next
    assume "\<exists>w \<in> set ws. \<not> ?P w"
    then obtain w where "w \<in> set ws" "\<not> ?P w" by blast
    then have "length (filter ?P ws) < length ws" by (rule length_filter_less)
    then show "length (filter ?P ws) \<noteq> length ws" by simp
  qed
  show ?thesis
    using assms len by (simp add: matchesKeybinding_def p matchesKeybinding_loop_eq Let_def)
qed

lemma matchesKeybinding_fast:
  "compareIgnoreCase q (getAriaLabel kb) = 0 \<or> compareIgnoreCase q (getLabel kb) = 0
   \<Longrightarrow> matchesKeybinding labels kb q ws = Some \<lparr>firstPart = fullMatch, chordPart = fullMatch\<rparr>"
  by (simp add: matchesKeybinding_def)

lemmas eval_string = toLowerCase_def toLowerCase_char_def upperAscii_def lowerAscii_def
  upperLatin1_def lowerLatin1_def compareIgnoreCase_def
  matchesPrefix_def matchesContiguousSubString_def indexOf_def

lemmas eval_keybinding = matchesKeybinding_def matchPart_def matchesMetaModifier_def
  matchesCtrlModifier_def matchesShiftModifier_def matchesAltModifier_def matchesKeyCode_def
  hasAnyMatch_def emptyMatch_def fullMatch_def wordMatchesPart_def

text \<open>
  Claim C3. When the query compares case-insensitively equal to the combination's
  accessible label or to its display label, \<open>matchesKeybinding\<close> returns the result with
  all five flags true in the first part and in the chord part, whatever the words and
  whether the combination has a chord or not.
\<close>

theorem matchesKeybinding_full_label:
  "compareIgnoreCase q (getAriaLabel kb) = 0 \<or> compareIgnoreCase q (getLabel kb) = 0
   \<Longrightarrow> matchesKeybinding labels kb q ws =
       Some \<lparr>firstPart = \<lparr>ctrlKey = True, shiftKey = True, altKey = True, metaKey = True,
                           keyCode = True\<rparr>,
             chordPart = \<lparr>ctrlKey = True, shiftKey = True, altKey = True, metaKey = True,
                           keyCode = True\<rparr>\<rparr>"
  by (simp add: matchesKeybinding_def fullMatch_def)

theorem matchesKeybinding_full_label_witness:
  "compareIgnoreCase ''CONTROL+z'' (getAriaLabel ctrlZ) = 0
   \<and> snd (getParts ctrlZ) = None
   \<and> matchesKeybinding windowsLabels ctrlZ ''CONTROL+z'' [''CONTROL'', ''z''] =
       Some \<lparr>firstPart = \<lparr>ctrlKey = True, shiftKey = True, altKey = True, metaKey = True,
                           keyCode = True\<rparr>,
             chordPart = \<lparr>ctrlKey = True, shiftKey = True, altKey = True, metaKey = True,
                           keyCode = True\<rparr>\<rparr>"
proof -
  have h: "compareIgnoreCase ''CONTROL+z'' (getAriaLabel ctrlZ) = 0"
    by (simp add: ctrlZ_def eval_string)
  show ?thesis
    using h matchesKeybinding_full_label [of "''CONTROL+z''" ctrlZ windowsLabels "[''CONTROL'', ''z'']"]
    by (simp add: ctrlZ_def)
qed

text \<open>
  Claim C2, as amended. When the query equals neither full label of the combination
  case-insensitively (the fast path is not taken) and some word matches neither the first
  part nor the chord part on any of the five flags, the key-combination match is
  \<open>None\<close>, whatever the other words match; and the query \<open>ctrl+z\<close>, split into
  \<open>ctrl\<close> and \<open>z\<close>, has no match in a combination bound to ctrl+x.
\<close>

theorem matchesKeybinding_all_words:
  "(compareIgnoreCase q (getAriaLabel kb) \<noteq> 0 \<and> compareIgnoreCase q (getLabel kb) \<noteq> 0
    \<and> w \<in> set ws
    \<and> \<not> wordMatchesPart labels (fst (getParts kb)) w
    \<and> \<not> wordMatchesPart labels (snd (getParts kb)) w
    \<longrightarrow> matchesKeybinding labels kb q ws = None)
   \<and> searchKeybindingWords ''ctrl+z'' = [''ctrl'', ''z'']
   \<and> matchesKeybinding windowsLabels ctrlX ''ctrl+z'' (searchKeybindingWords ''ctrl+z'') = None"
proof -
  have general: "matchesKeybinding labels kb q ws = None"
    if "compareIgnoreCase q (getAriaLabel kb) \<noteq> 0" "compareIgnoreCase q (getLabel kb) \<noteq> 0"
      "w \<in> set ws" "\<not> wordMatchesPart labels (fst (getParts kb)) w"
      "\<not> wordMatchesPart labels (snd (getParts kb)) w"
  proof -
    have "\<exists>w \<in> set ws. \<not> (wordMatchesPart labels (fst (getParts kb)) w
        \<or> wordMatchesPart labels (snd (getParts kb)) w)"
      using that by blast
    then show ?thesis
      using that(1,2) by (simp add: matchesKeybinding_slow Let_def)
  qed
  have words: "searchKeybindingWords ''ctrl+z'' = [''ctrl'', ''z'']"
    by (simp add: searchKeybindingWords_def)
  have "matchesKeybinding windowsLabels ctrlX ''ctrl+z'' [''ctrl'', ''z''] = None"
    by (simp add: ctrlX_def ctrlPart_def windowsLabels_def eval_keybinding eval_string)
  then show ?thesis using general words by simp
qed

theorem matchesKeybinding_all_words_witness:
  "compareIgnoreCase ''ctrl+z'' (getAriaLabel ctrlX) \<noteq> 0
   \<and> compareIgnoreCase ''ctrl+z'' (getLabel ctrlX) \<noteq> 0
   \<and> ''z'' \<in> set [''ctrl'', ''z'']
   \<and> \<not> wordMatchesPart windowsLabels (fst (getParts ctrlX)) ''z''
   \<and> \<not> wordMatchesPart windowsLabels (snd (getParts ctrlX)) ''z''
   \<and> wordMatchesPart windowsLabels (fst (getParts ctrlX)) ''ctrl''
   \<and> matchesKeybinding windowsLabels ctrlX ''ctrl+z'' [''ctrl'', ''z''] = None"
proof -
  have h: "compareIgnoreCase ''ctrl+z'' (getAriaLabel ctrlX) \<noteq> 0"
    "compareIgnoreCase ''ctrl+z'' (getLabel ctrlX) \<noteq> 0"
    "''z'' \<in> set [''ctrl'', ''z'']"
    "\<not> wordMatchesPart windowsLabels (fst (getParts ctrlX)) ''z''"
    "\<not> wordMatchesPart windowsLabels (snd (getParts ctrlX)) ''z''"
    "wordMatchesPart windowsLabels (fst (getParts ctrlX)) ''ctrl''"
    by (simp_all add: ctrlX_def ctrlPart_def windowsLabels_def eval_keybinding eval_string)
  show ?thesis
    using h matchesKeybinding_all_words [of "''ctrl+z''" ctrlX "''z''" "[''ctrl'', ''z'']" windowsLabels]
    by simp
qed

text \<open>
  Claim C2 as stated fails on the fast path: the query \<open>ctrl+k ctrl+c\<close> is split at
  \<open>+\<close> into \<open>ctrl\<close>, \<open>k ctrl\<close> and \<open>c\<close>; the word \<open>k ctrl\<close> matches neither part of
  the chord on any flag, and the query, equal to the display label, is a full match.
\<close>

theorem matchesKeybinding_all_words_counterexample:
  "searchKeybindingWords ''ctrl+k ctrl+c'' = [''ctrl'', ''k ctrl'', ''c'']
   \<and> \<not> wordMatchesPart windowsLabels (fst (getParts ctrlK_ctrlC)) ''k ctrl''
   \<and> \<not> wordMatchesPart windowsLabels (snd (getParts ctrlK_ctrlC)) ''k ctrl''
   \<and> matchesKeybinding windowsLabels ctrlK_ctrlC ''ctrl+k ctrl+c''
        (searchKeybindingWords ''ctrl+k ctrl+c'')
       = Some \<lparr>firstPart = fullMatch, chordPart = fullMatch\<rparr>"
  by (simp add: searchKeybindingWords_def ctrlK_ctrlC_def ctrlPart_def windowsLabels_def
      eval_keybinding eval_string)

lemma matchesPrefix_None:
  "matchesPrefix w t = None \<longleftrightarrow> t = [] \<or> \<not> prefixOf_ci w t"
  using matchesPrefix_iff [of w t] by blast

lemma matchesContiguousSubString_None:
  "matchesContiguousSubString w t = None \<longleftrightarrow> \<not> substringOf_ci w t"
  using matchesContiguousSubString_iff [of w t] by blast

lemma matchesMetaModifier_iff:
  "matchesMetaModifier labels part w \<longleftrightarrow>
     (\<exists>p. part = Some p \<and> hasMetaModifier p \<and> labelStartsWord labels metaKey_label w)"
  by (cases part) (auto simp: matchesMetaModifier_def labelStartsWord_def matchesPrefix_None)

lemma matchesCtrlModifier_iff:
  "matchesCtrlModifier labels part w \<longleftrightarrow>
     (\<exists>p. part = Some p \<and> hasCtrlModifier p \<and> labelStartsWord labels ctrlKey_label w)"
  by (cases part) (auto simp: matchesCtrlModifier_def labelStartsWord_def matchesPrefix_None)

lemma matchesShiftModifier_iff:
  "matchesShiftModifier labels part w \<longleftrightarrow>
     (\<exists>p. part = Some p \<and> hasShiftModifier p \<and> labelStartsWord labels shiftKey_label w)"
  by (cases part) (auto simp: matchesShiftModifier_def labelStartsWord_def matchesPrefix_None)

lemma matchesAltModifier_iff:
  "matchesAltModifier labels part w \<longleftrightarrow>
     (\<exists>p. part = Some p \<and> hasAltModifier p \<and> labelStartsWord labels altKey_label w)"
  by (cases part) (auto simp: matchesAltModifier_def labelStartsWord_def matchesPrefix_None)

text \<open>
  Claim C7, as amended. The meta, ctrl, shift or alt flag of a part is set by a word if and
  only if the part is present, carries that modifier, the word is not empty and the
  display string of the modifier in at least one of the three styles is a
  case-insensitive prefix of the word: the label starts the word, the word may go on after
  it. An absent part matches nothing and leaves the match object as it is.
\<close>

theorem modifier_flags:
  "(metaKey (snd (matchPart labels part emptyMatch w)) \<longleftrightarrow>
      (\<exists>p. part = Some p \<and> hasMetaModifier p \<and> labelStartsWord labels metaKey_label w))
   \<and> (ctrlKey (snd (matchPart labels part emptyMatch w)) \<longleftrightarrow>
      (\<exists>p. part = Some p \<and> hasCtrlModifier p \<and> labelStartsWord labels ctrlKey_label w))
   \<and> (shiftKey (snd (matchPart labels part emptyMatch w)) \<longleftrightarrow>
      (\<exists>p. part = Some p \<and> hasShiftModifier p \<and> labelStartsWord labels shiftKey_label w))
   \<and> (altKey (snd (matchPart labels part emptyMatch w)) \<longleftrightarrow>
      (\<exists>p. part = Some p \<and> hasAltModifier p \<and> labelStartsWord labels altKey_label w))
   \<and> matchPart labels None m w = (False, m)"
  by (simp add: matchPart_snd matchPart_None emptyMatch_def matchesMetaModifier_iff
      matchesCtrlModifier_iff matchesShiftModifier_iff matchesAltModifier_iff)

theorem modifier_flags_witness:
  "labelStartsWord windowsLabels ctrlKey_label ''ctrlx''
   \<and> ctrlKey (snd (matchPart windowsLabels (Some (ctrlPart ''Z'')) emptyMatch ''ctrlx''))
   \<and> \<not> shiftKey (snd (matchPart windowsLabels (Some (ctrlPart ''Z'')) emptyMatch ''shift''))
   \<and> matchPart windowsLabels None emptyMatch ''ctrl'' = (False, emptyMatch)"
proof -
  have h: "labelStartsWord windowsLabels ctrlKey_label ''ctrlx''"
    by (simp add: labelStartsWord_def prefixOf_ci_def windowsLabels_def eval_string)
  have p: "hasCtrlModifier (ctrlPart ''Z'')" "\<not> hasShiftModifier (ctrlPart ''Z'')"
    by (simp_all add: ctrlPart_def)
  show ?thesis
    using h p modifier_flags [of windowsLabels "Some (ctrlPart ''Z'')" "''ctrlx''" emptyMatch]
      modifier_flags [of windowsLabels "Some (ctrlPart ''Z'')" "''shift''" emptyMatch]
      modifier_flags [of windowsLabels "Some (ctrlPart ''Z'')" "''ctrl''" emptyMatch]
    by simp
qed

text \<open>
  Claim C7 as stated reads the prefix the other way round. On a part that carries ctrl,
  the word \<open>c\<close> is a prefix of the label \<open>Ctrl\<close> and does not set the flag; the word
  \<open>ctrlx\<close> is a prefix of no label and sets it.
\<close>

theorem modifier_flags_counterexample:
  "hasCtrlModifier (ctrlPart ''Z'')
   \<and> wordStartsLabel windowsLabels ctrlKey_label ''c''
   \<and> \<not> ctrlKey (snd (matchPart windowsLabels (Some (ctrlPart ''Z'')) emptyMatch ''c''))
   \<and> \<not> wordStartsLabel windowsLabels ctrlKey_label ''ctrlx''
   \<and> ctrlKey (snd (matchPart windowsLabels (Some (ctrlPart ''Z'')) emptyMatch ''ctrlx''))"
  by (simp add: wordStartsLabel_def prefixOf_ci_def ctrlPart_def windowsLabels_def
      eval_keybinding eval_string)

text \<open>
  Claim C8, as amended. The keyCode flag of a present part is set by a word if and only
  if, for the part's accessible label \<open>L\<close> without modifiers: when \<open>L\<close> or the word
  has length 1, they are equal case-insensitively; otherwise (neither has length 1) the
  word occurs in \<open>L\<close> as a contiguous substring, case-insensitively. When neither the
  word nor \<open>L\<close> is empty, this is the claim's reading.
\<close>

theorem keyCode_flag:
  "(matchesKeyCode (Some p) w \<longleftrightarrow>
      (if length (getAriaLabelWithoutModifiers p) = 1 \<or> length w = 1
       then toLowerCase (getAriaLabelWithoutModifiers p) = toLowerCase w
       else substringOf_ci w (getAriaLabelWithoutModifiers p)))
   \<and> keyCode (snd (matchPart labels (Some p) emptyMatch w)) = matchesKeyCode (Some p) w
   \<and> (length w \<noteq> 0 \<and> length (getAriaLabelWithoutModifiers p) \<noteq> 0
      \<longrightarrow> matchesKeyCode (Some p) w = keyCodeMatch_claimed (getAriaLabelWithoutModifiers p) w)"
proof -
  have a: "matchesKeyCode (Some p) w \<longleftrightarrow>
      (if length (getAriaLabelWithoutModifiers p) = 1 \<or> length w = 1
       then toLowerCase (getAriaLabelWithoutModifiers p) = toLowerCase w
       else substringOf_ci w (getAriaLabelWithoutModifiers p))"
    by (simp add: matchesKeyCode_def Let_def compareIgnoreCase_zero
        matchesContiguousSubString_None)
  have b: "keyCode (snd (matchPart labels (Some p) emptyMatch w)) = matchesKeyCode (Some p) w"
    by (simp add: matchPart_snd emptyMatch_def)
  have c: "matchesKeyCode (Some p) w = keyCodeMatch_claimed (getAriaLabelWithoutModifiers p) w"
    if "length w \<noteq> 0" "length (getAriaLabelWithoutModifiers p) \<noteq> 0"
  proof -
    have "length w = 1 \<or> length w > 1" "length (getAriaLabelWithoutModifiers p) = 1
        \<or> length (getAriaLabelWithoutModifiers p) > 1"
      using that by linarith+
    then show ?thesis unfolding a keyCodeMatch_claimed_def by auto
  qed
  show ?thesis using a b c by blast
qed

theorem keyCode_flag_witness:
  "matchesKeyCode (Some (ctrlPart ''Escape'')) ''cap''
   \<and> keyCode (snd (matchPart windowsLabels (Some (ctrlPart ''Escape'')) emptyMatch ''cap''))
   \<and> keyCodeMatch_claimed ''Escape'' ''cap''
   \<and> \<not> matchesKeyCode (Some (ctrlPart ''Escape'')) ''e''"
proof -
  have h: "matchesKeyCode (Some (ctrlPart ''Escape'')) ''cap''"
    "\<not> matchesKeyCode (Some (ctrlPart ''Escape'')) ''e''"
    by (simp_all add: ctrlPart_def eval_keybinding eval_string)
  show ?thesis
    using h keyCode_flag [of "ctrlPart ''Escape''" "''cap''" windowsLabels]
    by (simp add: ctrlPart_def)
qed

text \<open>
  Claim C8 as stated fails for the empty word, which a query such as \<open>ctrl+\<close> yields:
  it occurs in the label \<open>Escape\<close>, so the flag is set, and it is not longer than 1.
\<close>

theorem keyCode_flag_counterexample:
  "matchesKeyCode (Some (ctrlPart ''Escape'')) ''''
   \<and> keyCode (snd (matchPart windowsLabels (Some (ctrlPart ''Escape'')) emptyMatch ''''))
   \<and> \<not> keyCodeMatch_claimed (getAriaLabelWithoutModifiers (ctrlPart ''Escape'')) ''''"
  by (simp add: keyCodeMatch_claimed_def ctrlPart_def windowsLabels_def
      eval_keybinding eval_string)

section \<open>Properties of the field matcher and of the search\<close>

lemma matchesWords_loop_eq:
  "matchesWords_loop f t ws acc =
     (if \<forall>w \<in> set ws. f w t \<noteq> None then Some (acc @ concat (map (\<lambda>w. the (f w t)) ws))
      else None)"
  by (induction ws arbitrary: acc) (auto split: option.splits)

lemma wordFilter_eq:
  "wordFilter flt q t =
     (case matchesPrefix q t of
        Some m \<Rightarrow> Some m
      | None \<Rightarrow>
          (case matchesWords flt q t False of
             Some m \<Rightarrow> Some m
           | None \<Rightarrow> matchesContiguousSubString q t))"
  by (simp add: wordFilter_def split: option.splits)

text \<open>
  Claim C5. \<open>matches\<close> first applies \<open>wordFilter\<close> to the whole query: the first of
  prefix match, word match and contiguous-substring match that succeeds. When it
  succeeds, its spans are the result (after \<open>filterAndSort\<close>). Only when it fails are the
  words tried, each against the field's word matcher: one word that fails makes the
  field's match \<open>None\<close>; otherwise the spans of all words are accumulated in order (and
  passed to \<open>filterAndSort\<close>).
\<close>

theorem matches_spec:
  "wordFilter flt q t =
     (case matchesPrefix q t of
        Some m \<Rightarrow> Some m
      | None \<Rightarrow>
          (case matchesWords flt q t False of
             Some m \<Rightarrow> Some m
           | None \<Rightarrow> matchesContiguousSubString q t))
   \<and> (\<forall>m. wordFilter flt q t = Some m \<longrightarrow> matches flt q t wmf ws = Some (filterAndSort m))
   \<and> (wordFilter flt q t = None \<and> (\<exists>w \<in> set ws. wmf w t = None)
        \<longrightarrow> matches flt q t wmf ws = None)
   \<and> (wordFilter flt q t = None \<and> (\<forall>w \<in> set ws. wmf w t \<noteq> None)
        \<longrightarrow> matches flt q t wmf ws
            = Some (filterAndSort (concat (map (\<lambda>w. the (wmf w t)) ws))))"
proof -
  have a: "matches flt q t wmf ws = Some (filterAndSort m)" if "wordFilter flt q t = Some m" for m
    using that by (simp add: matches_def)
  have b: "matches flt q t wmf ws = None"
    if "wordFilter flt q t = None" "\<exists>w \<in> set ws. wmf w t = None"
    using that by (auto simp: matches_def matchesWords_method_def matchesWords_loop_eq)
  have c: "matches flt q t wmf ws = Some (filterAndSort (concat (map (\<lambda>w. the (wmf w t)) ws)))"
    if "wordFilter flt q t = None" "\<forall>w \<in> set ws. wmf w t \<noteq> None"
    using that by (simp add: matches_def matchesWords_method_def matchesWords_loop_eq)
  show ?thesis using a b c wordFilter_eq [of flt q t] by blast
qed

lemmas eval_filterAndSort = filterAndSort_def distinct_by_def matchKey_def
  numberToString.simps digitChar_def covers_def

theorem matches_spec_witness:
  "wordFilter noWordFilters ''abc'' ''xabcx'' = Some [\<lparr>start = 1, end' = 4\<rparr>]
   \<and> matches noWordFilters ''abc'' ''xabcx'' matchesContiguousSubString [''abc'']
       = Some [\<lparr>start = 1, end' = 4\<rparr>]
   \<and> wordFilter noWordFilters ''ab cx'' ''xabcx'' = None
   \<and> matches noWordFilters ''ab cx'' ''xabcx'' matchesContiguousSubString [''ab'', ''cx'']
       = Some [\<lparr>start = 1, end' = 3\<rparr>, \<lparr>start = 3, end' = 5\<rparr>]
   \<and> matches noWordFilters ''ab zz'' ''xabcx'' matchesContiguousSubString [''ab'', ''zz'']
       = None"
proof -
  have w1: "wordFilter noWordFilters ''abc'' ''xabcx'' = Some [\<lparr>start = 1, end' = 4\<rparr>]"
    by (simp add: wordFilter_def noWordFilters_def eval_string)
  have w2: "wordFilter noWordFilters ''ab cx'' ''xabcx'' = None"
    by (simp add: wordFilter_def noWordFilters_def eval_string)
  have w3: "wordFilter noWordFilters ''ab zz'' ''xabcx'' = None"
    by (simp add: wordFilter_def noWordFilters_def eval_string)
  have m: "matchesContiguousSubString ''ab'' ''xabcx'' = Some [\<lparr>start = 1, end' = 3\<rparr>]"
    "matchesContiguousSubString ''cx'' ''xabcx'' = Some [\<lparr>start = 3, end' = 5\<rparr>]"
    "matchesContiguousSubString ''zz'' ''xabcx'' = None"
    by (simp_all add: eval_string)
  have f: "filterAndSort [\<lparr>start = 1, end' = 4\<rparr>] = [\<lparr>start = 1, end' = 4\<rparr>]"
    "filterAndSort [\<lparr>start = 1, end' = 3\<rparr>, \<lparr>start = 3, end' = 5\<rparr>]
       = [\<lparr>start = 1, end' = 3\<rparr>, \<lparr>start = 3, end' = 5\<rparr>]"
    by (simp_all add: eval_filterAndSort)
  show ?thesis
    using w1 w2 w3 m f
      matches_spec [of noWordFilters "''abc''" "''xabcx''" matchesContiguousSubString "[''abc'']"]
      matches_spec [of noWordFilters "''ab cx''" "''xabcx''" matchesContiguousSubString
        "[''ab'', ''cx'']"]
      matches_spec [of noWordFilters "''ab zz''" "''xabcx''" matchesContiguousSubString
        "[''ab'', ''zz'']"]
    by simp
qed

lemma fetchKeybindingItems_loop_eq:
  "fetchKeybindingItems_loop flt labels q ws kws items result =
     result @ map (\<lambda>item. matchedEntry item (new_KeybindingItemMatches flt labels item q ws kws))
       (filter (\<lambda>item. hasAnyFieldMatch (new_KeybindingItemMatches flt labels item q ws kws))
          items)"
  by (induction items arbitrary: result) (simp_all add: Let_def)

lemma fetchKeybindingItems_eq:
  "fetchKeybindingItems flt model q =
     map (\<lambda>item. matchedEntry item
            (new_KeybindingItemMatches flt (modifierLabels model) item q (split CHR '' '' q)
               (searchKeybindingWords q)))
       (filter (\<lambda>item. hasAnyFieldMatch
            (new_KeybindingItemMatches flt (modifierLabels model) item q (split CHR '' '' q)
               (searchKeybindingWords q)))
          (keybindingItems model))"
  by (simp add: fetchKeybindingItems_def fetchKeybindingItems_loop_eq searchKeybindingWords_def
      Let_def)

lemma fetch_empty: "trim q = [] \<Longrightarrow> fetch flt model q = map plainEntry (keybindingItems model)"
  by (simp add: fetch_def)

lemma fetch_nonempty: "trim q \<noteq> [] \<Longrightarrow> fetch flt model q = fetchKeybindingItems flt model (trim q)"
  by (simp add: fetch_def)

text \<open>
  Claim C1. For every snapshot and query: when the trimmed query is empty, \<open>fetch\<close>
  returns one result for each stored entry, in the stored order, and none of the six match
  fields is present; when it is not empty, \<open>fetch\<close> returns, in the stored order,
  exactly the entries for which at least one of the six field matches (command id,
  label, default label, source, when, key combination) is not \<open>null\<close>, and each result
  carries the six matches of its entry.
\<close>

theorem fetch_spec:
  "(trim q = [] \<longrightarrow>
      map entry_keybindingItem (fetch flt model q) = keybindingItems model
      \<and> (\<forall>e \<in> set (fetch flt model q).
            commandIdMatches e = None \<and> commandLabelMatches e = None
            \<and> commandDefaultLabelMatches e = None \<and> sourceMatches e = None
            \<and> whenMatches e = None \<and> keybindingMatches e = None))
   \<and> (trim q \<noteq> [] \<longrightarrow>
      map entry_keybindingItem (fetch flt model q) =
        filter (\<lambda>item.
            commandIdMatches (new_KeybindingItemMatches flt (modifierLabels model) item (trim q)
               (split CHR '' '' (trim q)) (searchKeybindingWords (trim q))) \<noteq> None
            \<or> commandLabelMatches (new_KeybindingItemMatches flt (modifierLabels model) item (trim q)
               (split CHR '' '' (trim q)) (searchKeybindingWords (trim q))) \<noteq> None
            \<or> commandDefaultLabelMatches (new_KeybindingItemMatches flt (modifierLabels model) item
               (trim q) (split CHR '' '' (trim q)) (searchKeybindingWords (trim q))) \<noteq> None
            \<or> sourceMatches (new_KeybindingItemMatches flt (modifierLabels model) item (trim q)
               (split CHR '' '' (trim q)) (searchKeybindingWords (trim q))) \<noteq> None
            \<or> whenMatches (new_KeybindingItemMatches flt (modifierLabels model) item (trim q)
               (split CHR '' '' (trim q)) (searchKeybindingWords (trim q))) \<noteq> None
            \<or> keybindingMatches (new_KeybindingItemMatches flt (modifierLabels model) item (trim q)
               (split CHR '' '' (trim q)) (searchKeybindingWords (trim q))) \<noteq> None)
          (keybindingItems model)
      \<and> (\<forall>e \<in> set (fetch flt model q).
            commandIdMatches e = commandIdMatches
              (new_KeybindingItemMatches flt (modifierLabels model) (entry_keybindingItem e)
                (trim q) (split CHR '' '' (trim q)) (searchKeybindingWords (trim q)))
            \<and> commandLabelMatches e = commandLabelMatches
              (new_KeybindingItemMatches flt (modifierLabels model) (entry_keybindingItem e)
                (trim q) (split CHR '' '' (trim q)) (searchKeybindingWords (trim q)))
            \<and> commandDefaultLabelMatches e = commandDefaultLabelMatches
              (new_KeybindingItemMatches flt (modifierLabels model) (entry_keybindingItem e)
                (trim q) (split CHR '' '' (trim q)) (searchKeybindingWords (trim q)))
            \<and> sourceMatches e = sourceMatches
              (new_KeybindingItemMatches flt (modifierLabels model) (entry_keybindingItem e)
                (trim q) (split CHR '' '' (trim q)) (searchKeybindingWords (trim q)))
            \<and> whenMatches e = whenMatches
              (new_KeybindingItemMatches flt (modifierLabels model) (entry_keybindingItem e)
                (trim q) (split CHR '' '' (trim q)) (searchKeybindingWords (trim q)))
            \<and> keybindingMatches e = keybindingMatches
              (new_KeybindingItemMatches flt (modifierLabels model) (entry_keybindingItem e)
                (trim q) (split CHR '' '' (trim q)) (searchKeybindingWords (trim q)))))"
proof -
  let ?km = "\<lambda>item. new_KeybindingItemMatches flt (modifierLabels model) item (trim q)
               (split CHR '' '' (trim q)) (searchKeybindingWords (trim q))"
  have e1: "map entry_keybindingItem (map plainEntry xs) = xs" for xs
    by (induction xs) (simp_all add: plainEntry_def)
  have e2: "map entry_keybindingItem (map (\<lambda>item. matchedEntry item (?km item)) xs) = xs" for xs
    by (induction xs) (simp_all add: matchedEntry_def)
  have empty: "map entry_keybindingItem (fetch flt model q) = keybindingItems model
      \<and> (\<forall>e \<in> set (fetch flt model q).
            commandIdMatches e = None \<and> commandLabelMatches e = None
            \<and> commandDefaultLabelMatches e = None \<and> sourceMatches e = None
            \<and> whenMatches e = None \<and> keybindingMatches e = None)"
    if "trim q = []"
  proof -
    have f: "fetch flt model q = map plainEntry (keybindingItems model)"
      using that by (rule fetch_empty)
    have "map entry_keybindingItem (fetch flt model q) = keybindingItems model"
      by (simp only: f e1)
    moreover have "commandIdMatches e = None \<and> commandLabelMatches e = None
            \<and> commandDefaultLabelMatches e = None \<and> sourceMatches e = None
            \<and> whenMatches e = None \<and> keybindingMatches e = None"
      if "e \<in> set (fetch flt model q)" for e
      using that unfolding f by (auto simp: plainEntry_def)
    ultimately show ?thesis by blast
  qed
  have nonempty1: "map entry_keybindingItem (fetch flt model q) =
      filter (\<lambda>item. hasAnyFieldMatch (?km item)) (keybindingItems model)"
    if "trim q \<noteq> []"
  proof -
    have "fetch flt model q = fetchKeybindingItems flt model (trim q)"
      using that by (rule fetch_nonempty)
    then show ?thesis by (simp only: fetchKeybindingItems_eq e2)
  qed
  have nonempty2: "commandIdMatches e = commandIdMatches (?km (entry_keybindingItem e))
      \<and> commandLabelMatches e = commandLabelMatches (?km (entry_keybindingItem e))
      \<and> commandDefaultLabelMatches e = commandDefaultLabelMatches (?km (entry_keybindingItem e))
      \<and> sourceMatches e = sourceMatches (?km (entry_keybindingItem e))
      \<and> whenMatches e = whenMatches (?km (entry_keybindingItem e))
      \<and> keybindingMatches e = keybindingMatches (?km (entry_keybindingItem e))"
    if "trim q \<noteq> []" and e: "e \<in> set (fetch flt model q)" for e
  proof -
    have "fetch flt model q = fetchKeybindingItems flt model (trim q)"
      using that(1) by (rule fetch_nonempty)
    then have "e \<in> (\<lambda>item. matchedEntry item (?km item)) ` set (keybindingItems model)"
      using e by (auto simp only: fetchKeybindingItems_eq set_map set_filter)
    then obtain item where "e = matchedEntry item (?km item)"
      by blast
    then show ?thesis by (simp add: matchedEntry_def)
  qed
  show ?thesis
    using empty nonempty1 nonempty2 unfolding hasAnyFieldMatch_def by blast
qed

lemma filterAndSort_single: "filterAndSort [m] = [m]"
  by (simp add: filterAndSort_def distinct_by_def covers_def)

lemmas eval_fetch = new_KeybindingItemMatches_def matches_def wordFilter_def
  matchesWords_method_def hasAnyFieldMatch_def matchedEntry_def plainEntry_def

theorem fetch_spec_witness:
  "trim ''  undo '' = ''undo''
   \<and> map entry_keybindingItem (fetch noWordFilters exampleModel ''  undo '') = [undoItem ctrlZ]
   \<and> map commandLabelMatches (fetch noWordFilters exampleModel ''  undo '')
       = [Some [\<lparr>start = 0, end' = 4\<rparr>]]
   \<and> trim ''   '' = []
   \<and> map entry_keybindingItem (fetch noWordFilters exampleModel ''   '')
       = [undoItem ctrlZ, redoItem]"
proof -
  have t: "trim ''  undo '' = ''undo''" "trim ''   '' = []"
    by (simp_all add: trim_def isWhiteSpace_def)
  have w: "split CHR '' '' ''undo'' = [''undo'']" "searchKeybindingWords ''undo'' = [''undo'']"
    by (simp_all add: searchKeybindingWords_def)
  have u: "new_KeybindingItemMatches noWordFilters windowsLabels (undoItem ctrlZ) ''undo''
       [''undo''] [''undo'']
     = \<lparr>commandIdMatches = Some [\<lparr>start = 14, end' = 18\<rparr>],
        commandLabelMatches = Some [\<lparr>start = 0, end' = 4\<rparr>],
        commandDefaultLabelMatches = None, sourceMatches = None, whenMatches = None,
        keybindingMatches = None\<rparr>"
    by (simp add: filterAndSort_single eval_fetch undoItem_def ctrlZ_def ctrlPart_def windowsLabels_def
        noWordFilters_def eval_keybinding eval_string)
  have r: "new_KeybindingItemMatches noWordFilters windowsLabels redoItem ''undo''
       [''undo''] [''undo'']
     = \<lparr>commandIdMatches = None, commandLabelMatches = None,
        commandDefaultLabelMatches = None, sourceMatches = None, whenMatches = None,
        keybindingMatches = None\<rparr>"
    by (simp add: eval_fetch redoItem_def ctrlY_def ctrlPart_def windowsLabels_def
        noWordFilters_def eval_keybinding eval_string)
  have r1: "fetch noWordFilters exampleModel ''  undo ''
      = [matchedEntry (undoItem ctrlZ)
           (new_KeybindingItemMatches noWordFilters windowsLabels (undoItem ctrlZ) ''undo''
              [''undo''] [''undo''])]"
    by (simp add: fetch_def fetchKeybindingItems_eq t w u r hasAnyFieldMatch_def exampleModel_def)
  have ne: "trim ''  undo '' \<noteq> []" by (simp add: t)
  have e1: "map entry_keybindingItem (fetch noWordFilters exampleModel ''  undo '')
      = [undoItem ctrlZ]"
    using fetch_spec [of "''  undo ''" noWordFilters exampleModel, THEN conjunct2, THEN mp,
        OF ne, THEN conjunct1]
    by (simp add: t w u r exampleModel_def)
  have e2: "map entry_keybindingItem (fetch noWordFilters exampleModel ''   '')
      = [undoItem ctrlZ, redoItem]"
    using fetch_spec [of "''   ''" noWordFilters exampleModel, THEN conjunct1, THEN mp,
        OF t(2), THEN conjunct1]
    by (simp add: exampleModel_def)
  have e3: "map commandLabelMatches (fetch noWordFilters exampleModel ''  undo '')
       = [Some [\<lparr>start = 0, end' = 4\<rparr>]]"
    by (simp add: r1 u matchedEntry_def)
  show ?thesis
    using t e1 e2 e3 by simp
qed

section \<open>The example of the specification\<close>

lemma kim_fields:
  "commandIdMatches (new_KeybindingItemMatches flt L item q ws kws) =
     matches flt q (command item)
       (or_filter [(\<lambda>w t. matchesWords flt w t False), matchesCamelCase flt]) ws"
  "commandLabelMatches (new_KeybindingItemMatches flt L item q ws kws) =
     (if commandLabel item \<noteq> []
      then matches flt q (commandLabel item)
             (\<lambda>word wordToMatchAgainst. matchesWords flt word (commandLabel item) True) ws
      else None)"
  "commandDefaultLabelMatches (new_KeybindingItemMatches flt L item q ws kws) =
     (case commandDefaultLabel item of
        None \<Rightarrow> None
      | Some l \<Rightarrow>
          if l \<noteq> []
          then matches flt q l (\<lambda>word wordToMatchAgainst. matchesWords flt word l True) ws
          else None)"
  "sourceMatches (new_KeybindingItemMatches flt L item q ws kws) =
     matches flt q (source item)
       (\<lambda>word wordToMatchAgainst. matchesWords flt word (source item) True) ws"
  "whenMatches (new_KeybindingItemMatches flt L item q ws kws) =
     (if when' item \<noteq> []
      then matches flt q (when' item)
             (or_filter [(\<lambda>w t. matchesWords flt w t False), matchesCamelCase flt]) ws
      else None)"
  "keybindingMatches (new_KeybindingItemMatches flt L item q ws kws) =
     (case keybinding item of
        None \<Rightarrow> None
      | Some kb \<Rightarrow> matchesKeybinding L kb q kws)"
  by (simp_all add: new_KeybindingItemMatches_def)

lemma fetch_single:
  "trim q = q \<Longrightarrow> q \<noteq> [] \<Longrightarrow>
   fetch flt \<lparr>keybindingItems = [item], modifierLabels = L\<rparr> q =
     (if hasAnyFieldMatch
           (new_KeybindingItemMatches flt L item q (split CHR '' '' q) (searchKeybindingWords q))
      then [matchedEntry item
           (new_KeybindingItemMatches flt L item q (split CHR '' '' q) (searchKeybindingWords q))]
      else [])"
  by (simp add: fetch_def fetchKeybindingItems_eq)

lemma undoItem_fields:
  "keybinding (undoItem kb) = Some kb" "commandLabel (undoItem kb) = ''Undo''"
  "commandDefaultLabel (undoItem kb) = None" "command (undoItem kb) = ''editor.action.undo''"
  "source (undoItem kb) = ''Default''" "when' (undoItem kb) = []"
  by (simp_all add: undoItem_def)

lemma ctrlZ_keybinding:
  assumes parts: "getParts kb = (Some (ctrlPart ''Z''), None)"
    and user: "ctrlKey_label (user labels) = ''ctrl''"
  shows "matchesKeybinding labels kb ''ctrl+z'' [''ctrl'', ''z''] =
     Some (if compareIgnoreCase ''ctrl+z'' (getAriaLabel kb) = 0
              \<or> compareIgnoreCase ''ctrl+z'' (getLabel kb) = 0
           then \<lparr>firstPart = fullMatch, chordPart = fullMatch\<rparr>
           else \<lparr>firstPart = \<lparr>ctrlKey = True, shiftKey = False, altKey = False,
                               metaKey = False, keyCode = True\<rparr>,
                 chordPart = emptyMatch\<rparr>)"
proof (cases "compareIgnoreCase ''ctrl+z'' (getAriaLabel kb) = 0
              \<or> compareIgnoreCase ''ctrl+z'' (getLabel kb) = 0")
  case True
  then show ?thesis by (simp add: matchesKeybinding_fast)
next
  case False
  let ?p = "Some (ctrlPart ''Z'')"
  have c1: "matchesCtrlModifier labels ?p ''ctrl''"
    by (simp add: matchesCtrlModifier_iff labelStartsWord_def user ctrlPart_def prefixOf_ci_def)
  have k1: "\<not> matchesKeyCode ?p ''ctrl''" and k2: "matchesKeyCode ?p ''z''"
    by (simp_all add: matchesKeyCode_def ctrlPart_def eval_string)
  have m: "\<not> matchesMetaModifier labels ?p w" "\<not> matchesShiftModifier labels ?p w"
    "\<not> matchesAltModifier labels ?p w" for w
    by (simp_all add: matchesMetaModifier_def matchesShiftModifier_def matchesAltModifier_def
        ctrlPart_def)
  have w: "wordMatchesPart labels ?p ''ctrl''" "wordMatchesPart labels ?p ''z''"
    using c1 k2 by (simp_all add: wordMatchesPart_def matchPart_fst)
  show ?thesis
    using False c1 k1 k2 m w
    by (simp add: matchesKeybinding_slow parts matchPart_snd matchPart_None emptyMatch_def
        hasAnyMatch_def)
qed

lemma undo_search:
  "map commandLabelMatches (fetch flt (undoModel labels kb) ''undo'')
     = [Some [\<lparr>start = 0, end' = 4\<rparr>]]"
proof -
  let ?km = "new_KeybindingItemMatches flt labels (undoItem kb) ''undo''
      (split CHR '' '' ''undo'') (searchKeybindingWords ''undo'')"
  have l: "commandLabelMatches ?km = Some [\<lparr>start = 0, end' = 4\<rparr>]"
    by (simp add: kim_fields undoItem_fields matches_def wordFilter_def filterAndSort_single
        eval_string)
  then have "hasAnyFieldMatch ?km" by (simp add: hasAnyFieldMatch_def)
  moreover have "trim ''undo'' = ''undo''" by (simp add: trim_def isWhiteSpace_def)
  ultimately have "fetch flt (undoModel labels kb) ''undo'' = [matchedEntry (undoItem kb) ?km]"
    by (simp add: undoModel_def fetch_single)
  then show ?thesis using l by (simp add: matchedEntry_def)
qed

lemma ctrl_z_search:
  assumes parts: "getParts kb = (Some (ctrlPart ''Z''), None)"
    and user: "ctrlKey_label (user labels) = ''ctrl''"
  shows "map keybindingMatches (fetch flt (undoModel labels kb) ''ctrl+z'')
     = [Some (if compareIgnoreCase ''ctrl+z'' (getAriaLabel kb) = 0
                 \<or> compareIgnoreCase ''ctrl+z'' (getLabel kb) = 0
              then \<lparr>firstPart = fullMatch, chordPart = fullMatch\<rparr>
              else \<lparr>firstPart = \<lparr>ctrlKey = True, shiftKey = False, altKey = False,
                                  metaKey = False, keyCode = True\<rparr>,
                    chordPart = emptyMatch\<rparr>)]"
proof -
  let ?km = "new_KeybindingItemMatches flt labels (undoItem kb) ''ctrl+z''
      (split CHR '' '' ''ctrl+z'') (searchKeybindingWords ''ctrl+z'')"
  have ws: "searchKeybindingWords ''ctrl+z'' = [''ctrl'', ''z'']"
    by (simp add: searchKeybindingWords_def)
  have k: "keybindingMatches ?km = matchesKeybinding labels kb ''ctrl+z'' [''ctrl'', ''z'']"
    by (simp only: kim_fields undoItem_fields ws option.case)
  then have "keybindingMatches ?km \<noteq> None"
    by (simp only: ctrlZ_keybinding [OF parts user] option.distinct not_False_eq_True)
  then have "hasAnyFieldMatch ?km" by (simp add: hasAnyFieldMatch_def)
  moreover have "trim ''ctrl+z'' = ''ctrl+z''" by (simp add: trim_def isWhiteSpace_def)
  ultimately have "fetch flt (undoModel labels kb) ''ctrl+z'' = [matchedEntry (undoItem kb) ?km]"
    by (simp add: undoModel_def fetch_single)
  then have "map keybindingMatches (fetch flt (undoModel labels kb) ''ctrl+z'')
      = [matchesKeybinding labels kb ''ctrl+z'' [''ctrl'', ''z'']]"
    using k by (simp add: matchedEntry_def)
  then show ?thesis by (simp only: ctrlZ_keybinding [OF parts user])
qed

lemma redo_search:
  assumes parts: "getParts kb = (Some (ctrlPart ''Z''), None)"
    and flt: "matchesWords flt ''redo'' ''editor.action.undo'' False = None"
      "matchesCamelCase flt ''redo'' ''editor.action.undo'' = None"
      "matchesWords flt ''redo'' ''Undo'' False = None"
      "matchesWords flt ''redo'' ''Undo'' True = None"
      "matchesWords flt ''redo'' ''Default'' False = None"
      "matchesWords flt ''redo'' ''Default'' True = None"
    and labels: "compareIgnoreCase ''redo'' (getAriaLabel kb) \<noteq> 0"
      "compareIgnoreCase ''redo'' (getLabel kb) \<noteq> 0"
      "\<not> labelStartsWord labels ctrlKey_label ''redo''"
  shows "fetch flt (undoModel labels kb) ''redo'' = []"
proof -
  let ?km = "new_KeybindingItemMatches flt labels (undoItem kb) ''redo''
      (split CHR '' '' ''redo'') (searchKeybindingWords ''redo'')"
  let ?p = "Some (ctrlPart ''Z'')"
  have ws: "searchKeybindingWords ''redo'' = [''redo'']" "split CHR '' '' ''redo'' = [''redo'']"
    by (simp_all add: searchKeybindingWords_def)
  have f1: "commandIdMatches ?km = None"
    by (simp add: kim_fields undoItem_fields ws matches_def wordFilter_def
        matchesWords_method_def flt eval_string)
  have f2: "commandLabelMatches ?km = None"
    by (simp add: kim_fields undoItem_fields ws matches_def wordFilter_def
        matchesWords_method_def flt eval_string)
  have f3: "commandDefaultLabelMatches ?km = None"
    by (simp add: kim_fields undoItem_fields)
  have f4: "sourceMatches ?km = None"
    by (simp add: kim_fields undoItem_fields ws matches_def wordFilter_def
        matchesWords_method_def flt eval_string)
  have f5: "whenMatches ?km = None"
    by (simp add: kim_fields undoItem_fields)
  have "\<not> wordMatchesPart labels ?p ''redo''"
    using labels(3)
    by (simp add: wordMatchesPart_def matchPart_fst matchesCtrlModifier_iff matchesKeyCode_def
        matchesMetaModifier_def matchesShiftModifier_def matchesAltModifier_def ctrlPart_def
        eval_string)
  moreover have "\<not> wordMatchesPart labels None ''redo''"
    by (simp add: wordMatchesPart_def matchPart_None)
  ultimately have "matchesKeybinding labels kb ''redo'' [''redo''] = None"
    using labels(1,2) by (simp add: matchesKeybinding_slow parts)
  then have f6: "keybindingMatches ?km = None"
    by (simp add: kim_fields undoItem_fields ws)
  have "\<not> hasAnyFieldMatch ?km"
    using f1 f2 f3 f4 f5 f6 by (simp add: hasAnyFieldMatch_def)
  moreover have "trim ''redo'' = ''redo''" by (simp add: trim_def isWhiteSpace_def)
  ultimately show ?thesis
    by (simp add: undoModel_def fetch_single)
qed

text \<open>
  Claim C4, as amended. For the single entry with command \<open>editor.action.undo\<close>, label
  \<open>Undo\<close>, source Default and a combination \<open>kb\<close>: \<open>fetch\<close> of \<open>undo\<close> returns one
  result, whose \<open>commandLabelMatches\<close> is the single span \<open>[0, 4)\<close>. When \<open>kb\<close> is
  ctrl+z without chord and the user-settings label of ctrl is \<open>ctrl\<close>, \<open>fetch\<close> of
  \<open>ctrl+z\<close> returns one result; its \<open>keybindingMatches\<close> has every flag of both parts
  true when the query equals the accessible or the display label of \<open>kb\<close>
  case-insensitively, and otherwise exactly \<open>ctrlKey\<close> and \<open>keyCode\<close> in the first part
  and no flag in the chord part. \<open>fetch\<close> of \<open>redo\<close> returns no result, when the two
  parametric primitives find no \<open>redo\<close> in the command, the label and the source, and no
  label of the combination or of ctrl matches \<open>redo\<close>.
\<close>

theorem undo_example:
  "map commandLabelMatches (fetch flt (undoModel labels kb) ''undo'')
     = [Some [\<lparr>start = 0, end' = 4\<rparr>]]
   \<and> (getParts kb = (Some (ctrlPart ''Z''), None) \<and> ctrlKey_label (user labels) = ''ctrl''
      \<longrightarrow> map keybindingMatches (fetch flt (undoModel labels kb) ''ctrl+z'')
           = [Some (if compareIgnoreCase ''ctrl+z'' (getAriaLabel kb) = 0
                       \<or> compareIgnoreCase ''ctrl+z'' (getLabel kb) = 0
                    then \<lparr>firstPart = \<lparr>ctrlKey = True, shiftKey = True, altKey = True,
                                        metaKey = True, keyCode = True\<rparr>,
                          chordPart = \<lparr>ctrlKey = True, shiftKey = True, altKey = True,
                                        metaKey = True, keyCode = True\<rparr>\<rparr>
                    else \<lparr>firstPart = \<lparr>ctrlKey = True, shiftKey = False, altKey = False,
                                        metaKey = False, keyCode = True\<rparr>,
                          chordPart = \<lparr>ctrlKey = False, shiftKey = False, altKey = False,
                                        metaKey = False, keyCode = False\<rparr>\<rparr>)])
   \<and> (getParts kb = (Some (ctrlPart ''Z''), None)
      \<and> matchesWords flt ''redo'' ''editor.action.undo'' False = None
      \<and> matchesCamelCase flt ''redo'' ''editor.action.undo'' = None
      \<and> matchesWords flt ''redo'' ''Undo'' False = None
      \<and> matchesWords flt ''redo'' ''Undo'' True = None
      \<and> matchesWords flt ''redo'' ''Default'' False = None
      \<and> matchesWords flt ''redo'' ''Default'' True = None
      \<and> compareIgnoreCase ''redo'' (getAriaLabel kb) \<noteq> 0
      \<and> compareIgnoreCase ''redo'' (getLabel kb) \<noteq> 0
      \<and> \<not> labelStartsWord labels ctrlKey_label ''redo''
      \<longrightarrow> fetch flt (undoModel labels kb) ''redo'' = [])"
  using undo_search [of flt labels kb] ctrl_z_search [of kb labels flt]
    redo_search [of kb flt labels]
  by (simp add: fullMatch_def emptyMatch_def)

theorem undo_example_witness:
  "getParts ctrlZ_localized = (Some (ctrlPart ''Z''), None)
   \<and> ctrlKey_label (user localizedLabels) = ''ctrl''
   \<and> compareIgnoreCase ''ctrl+z'' (getAriaLabel ctrlZ_localized) \<noteq> 0
   \<and> compareIgnoreCase ''ctrl+z'' (getLabel ctrlZ_localized) \<noteq> 0
   \<and> map commandLabelMatches (fetch noWordFilters (undoModel localizedLabels ctrlZ_localized) ''undo'')
       = [Some [\<lparr>start = 0, end' = 4\<rparr>]]
   \<and> map keybindingMatches (fetch noWordFilters (undoModel localizedLabels ctrlZ_localized) ''ctrl+z'')
       = [Some \<lparr>firstPart = \<lparr>ctrlKey = True, shiftKey = False, altKey = False,
                               metaKey = False, keyCode = True\<rparr>,
                 chordPart = \<lparr>ctrlKey = False, shiftKey = False, altKey = False,
                               metaKey = False, keyCode = False\<rparr>\<rparr>]
   \<and> fetch noWordFilters (undoModel localizedLabels ctrlZ_localized) ''redo'' = []"
proof -
  have h: "getParts ctrlZ_localized = (Some (ctrlPart ''Z''), None)"
    "ctrlKey_label (user localizedLabels) = ''ctrl''"
    "compareIgnoreCase ''ctrl+z'' (getAriaLabel ctrlZ_localized) \<noteq> 0"
    "compareIgnoreCase ''ctrl+z'' (getLabel ctrlZ_localized) \<noteq> 0"
    "compareIgnoreCase ''redo'' (getAriaLabel ctrlZ_localized) \<noteq> 0"
    "compareIgnoreCase ''redo'' (getLabel ctrlZ_localized) \<noteq> 0"
    "\<not> labelStartsWord localizedLabels ctrlKey_label ''redo''"
    by (simp_all add: ctrlZ_localized_def localizedLabels_def labelStartsWord_def
        prefixOf_ci_def eval_string)
  have n: "matchesWords noWordFilters w t c = None" "matchesCamelCase noWordFilters w t = None"
    for w t c
    by (simp_all add: noWordFilters_def)
  show ?thesis
    using h undo_example [of noWordFilters localizedLabels ctrlZ_localized]
    by (simp add: n)
qed

text \<open>
  Claim C4 as stated fails where ctrl+z is displayed as \<open>Ctrl+Z\<close>: the query \<open>ctrl+z\<close>
  equals the display label case-insensitively, and the result has all five flags in both
  parts, not \<open>ctrlKey\<close> and \<open>keyCode\<close> alone.
\<close>

theorem undo_example_counterexample:
  "getParts ctrlZ = (Some (ctrlPart ''Z''), None)
   \<and> getLabel ctrlZ = ''Ctrl+Z''
   \<and> map keybindingMatches (fetch noWordFilters (undoModel windowsLabels ctrlZ) ''ctrl+z'')
       = [Some \<lparr>firstPart = \<lparr>ctrlKey = True, shiftKey = True, altKey = True,
                               metaKey = True, keyCode = True\<rparr>,
                 chordPart = \<lparr>ctrlKey = True, shiftKey = True, altKey = True,
                               metaKey = True, keyCode = True\<rparr>\<rparr>]"
proof -
  have h: "getParts ctrlZ = (Some (ctrlPart ''Z''), None)"
    "ctrlKey_label (user windowsLabels) = ''ctrl''"
    "compareIgnoreCase ''ctrl+z'' (getLabel ctrlZ) = 0"
    by (simp_all add: ctrlZ_def windowsLabels_def eval_string)
  show ?thesis
    using ctrl_z_search [OF h(1,2), of noWordFilters] h(3)
    by (simp add: fullMatch_def ctrlZ_def)
qed

section \<open>Properties of the order and of the snapshot\<close>

lemma toKeybindingEntry_fields:
  "keybinding (toKeybindingEntry svc cmd item ea) = resolvedKeybinding item"
  "keybindingItem (toKeybindingEntry svc cmd item ea) = item"
  "command (toKeybindingEntry svc cmd item ea) = cmd"
  "source (toKeybindingEntry svc cmd item ea) = (if isDefault item then ''Default'' else ''User'')"
  by (simp_all add: toKeybindingEntry_def localize_def Let_def)

text \<open>
  The rules of \<open>compareKeybindingData\<close>, in the order in which it decides: an entry with a
  key combination sorts before one without; then an entry with a non-empty label before
  one without; then, both labels non-empty and different, by \<open>localeCompare\<close> of the
  labels; then, the commands being equal, an entry that is not default before a default
  one; otherwise by \<open>localeCompare\<close> of the commands. "Sorts before" is a negative
  result, and a positive one with the arguments exchanged. The source of an entry is
  \<open>Default\<close> exactly when its \<open>keybindingItem\<close> is default.
\<close>

lemma compareKeybindingData_rules:
  "(keybinding a \<noteq> None \<and> keybinding b = None
      \<longrightarrow> compareKeybindingData lc a b = - 1 \<and> compareKeybindingData lc b a = 1)
   \<and> ((keybinding a = None \<longleftrightarrow> keybinding b = None)
       \<and> commandLabel a \<noteq> [] \<and> commandLabel b = []
      \<longrightarrow> compareKeybindingData lc a b = - 1 \<and> compareKeybindingData lc b a = 1)
   \<and> ((keybinding a = None \<longleftrightarrow> keybinding b = None)
       \<and> commandLabel a \<noteq> [] \<and> commandLabel b \<noteq> [] \<and> commandLabel a \<noteq> commandLabel b
      \<longrightarrow> compareKeybindingData lc a b = lc (commandLabel a) (commandLabel b))
   \<and> ((keybinding a = None \<longleftrightarrow> keybinding b = None)
       \<and> commandLabel a = commandLabel b \<and> command a = command b
       \<and> \<not> isDefault (keybindingItem a) \<and> isDefault (keybindingItem b)
      \<longrightarrow> compareKeybindingData lc a b = - 1 \<and> compareKeybindingData lc b a = 1)
   \<and> ((keybinding a = None \<longleftrightarrow> keybinding b = None)
       \<and> commandLabel a = commandLabel b \<and> command a \<noteq> command b
      \<longrightarrow> compareKeybindingData lc a b = lc (command a) (command b))
   \<and> (source (toKeybindingEntry svc cmd item ea) = ''Default'' \<longleftrightarrow> isDefault item)
   \<and> keybindingItem (toKeybindingEntry svc cmd item ea) = item"
proof -
  have r1: "compareKeybindingData lc a b = - 1 \<and> compareKeybindingData lc b a = 1"
    if "keybinding a \<noteq> None" "keybinding b = None"
    using that
    by (cases "keybinding a"; cases "keybinding b") (simp_all add: compareKeybindingData_def)
  have r2: "compareKeybindingData lc a b = - 1 \<and> compareKeybindingData lc b a = 1"
    if "keybinding a = None \<longleftrightarrow> keybinding b = None" "commandLabel a \<noteq> []" "commandLabel b = []"
    using that
    by (cases "keybinding a"; cases "keybinding b") (simp_all add: compareKeybindingData_def)
  have r3: "compareKeybindingData lc a b = lc (commandLabel a) (commandLabel b)"
    if "keybinding a = None \<longleftrightarrow> keybinding b = None" "commandLabel a \<noteq> []"
      "commandLabel b \<noteq> []" "commandLabel a \<noteq> commandLabel b"
    using that
    by (cases "keybinding a"; cases "keybinding b") (simp_all add: compareKeybindingData_def)
  have r4: "compareKeybindingData lc a b = - 1 \<and> compareKeybindingData lc b a = 1"
    if "keybinding a = None \<longleftrightarrow> keybinding b = None" "commandLabel a = commandLabel b"
      "command a = command b" "\<not> isDefault (keybindingItem a)" "isDefault (keybindingItem b)"
    using that
    by (cases "keybinding a"; cases "keybinding b") (simp_all add: compareKeybindingData_def)
  have r5: "compareKeybindingData lc a b = lc (command a) (command b)"
    if "keybinding a = None \<longleftrightarrow> keybinding b = None" "commandLabel a = commandLabel b"
      "command a \<noteq> command b"
    using that
    by (cases "keybinding a"; cases "keybinding b") (simp_all add: compareKeybindingData_def)
  have r6: "source (toKeybindingEntry svc cmd item ea) = ''Default'' \<longleftrightarrow> isDefault item"
    by (simp add: toKeybindingEntry_fields)
  show ?thesis
    using r1 r2 r3 r4 r5 r6 toKeybindingEntry_fields(2) [of svc cmd item ea]
    by (intro conjI impI; (elim conjE)?; simp)
qed

text \<open>
  For two entries that the first three rules do not separate and that have the same
  command, the result depends on the first argument only.
\<close>

lemma compareKeybindingData_same_source:
  "(keybinding a = None \<longleftrightarrow> keybinding b = None) \<Longrightarrow> commandLabel a = commandLabel b
   \<Longrightarrow> command a = command b
   \<Longrightarrow> compareKeybindingData lc a b = (if isDefault (keybindingItem a) then 1 else - 1)"
  by (cases "keybinding a"; cases "keybinding b") (simp_all add: compareKeybindingData_def)

lemma compareKeybindingData_rules_example:
  "compareKeybindingData compareUnits
       (labelledItem (Some ctrlZ) ''z.cmd'' ''Zebra'' True) (labelledItem None ''a.cmd'' ''Apple'' True)
     = - 1
   \<and> compareKeybindingData compareUnits
       (labelledItem None ''a.cmd'' ''Apple'' True) (labelledItem None ''b.cmd'' [] True)
     = - 1
   \<and> compareKeybindingData compareUnits
       (labelledItem None ''a.cmd'' ''Apple'' True) (labelledItem None ''b.cmd'' ''Banana'' True)
     = compareUnits ''Apple'' ''Banana''
   \<and> compareKeybindingData compareUnits
       (labelledItem None ''a.cmd'' ''Apple'' False) (labelledItem None ''a.cmd'' ''Apple'' True)
     = - 1
   \<and> compareKeybindingData compareUnits
       (labelledItem None ''a.cmd'' ''Apple'' True) (labelledItem None ''a.cmd'' ''Apple'' False)
     = 1
   \<and> compareKeybindingData compareUnits
       (labelledItem None ''a.cmd'' ''Apple'' True) (labelledItem None ''b.cmd'' ''Apple'' True)
     = compareUnits ''a.cmd'' ''b.cmd''"
  using compareKeybindingData_rules [of "labelledItem (Some ctrlZ) ''z.cmd'' ''Zebra'' True"
      "labelledItem None ''a.cmd'' ''Apple'' True" compareUnits]
    compareKeybindingData_rules [of "labelledItem None ''a.cmd'' ''Apple'' True"
      "labelledItem None ''b.cmd'' [] True" compareUnits]
    compareKeybindingData_rules [of "labelledItem None ''a.cmd'' ''Apple'' True"
      "labelledItem None ''b.cmd'' ''Banana'' True" compareUnits]
    compareKeybindingData_rules [of "labelledItem None ''a.cmd'' ''Apple'' False"
      "labelledItem None ''a.cmd'' ''Apple'' True" compareUnits]
    compareKeybindingData_rules [of "labelledItem None ''a.cmd'' ''Apple'' True"
      "labelledItem None ''b.cmd'' ''Apple'' True" compareUnits]
  by (simp add: labelledItem_def new_ResolvedKeybindingItem_def)

lemma set_insert_by: "set (insert_by cmp x xs) = insert x (set xs)"
  by (induction xs) auto

lemma set_sort_by: "set (sort_by cmp xs) = set xs"
  unfolding sort_by_def by (induction xs) (simp_all add: set_insert_by)

lemma resolve_unbound_eq:
  "resolve_unbound svc ea defs cs items =
     items @ map (\<lambda>c. toKeybindingEntry svc c
                    (new_ResolvedKeybindingItem None (Some c) None None (Some c \<notin> set defs)) ea)
               cs"
  by (induction cs arbitrary: items) (simp_all add: Let_def)

lemma resolve_items_eq:
  "resolve_items svc =
     fst (resolve_bound svc (editorActionsOf (getEditorActions svc)) (getKeybindings svc)
            ([], Map.empty))
     @ map (\<lambda>c. toKeybindingEntry svc c
              (new_ResolvedKeybindingItem None (Some c) None None
                 (Some c \<notin> set (map rki_command (getDefaultKeybindings svc))))
              (editorActionsOf (getEditorActions svc)))
         (getAllUnboundCommands svc (boundCommandsOf svc))"
  by (simp add: resolve_items_def boundCommandsOf_def resolve_unbound_eq Let_def split_beta)

lemma resolve_bound_commands:
  "snd (resolve_bound svc ea ks (items, b)) c =
     (if c \<noteq> [] \<and> Some c \<in> set (map rki_command ks) then Some True else b c)"
  by (induction ks arbitrary: items b) (auto split: option.splits)

lemma boundCommandsOf_eq:
  "boundCommandsOf svc c =
     (if c \<noteq> [] \<and> Some c \<in> set (map rki_command (getKeybindings svc)) then Some True
      else None)"
  by (simp add: boundCommandsOf_def resolve_bound_commands)

text \<open>
  Claim C10. For every command that \<open>getAllUnboundCommands\<close> returns for the bound
  commands, the snapshot that \<open>resolve\<close> builds has an entry for that command with no key
  combination, whose \<open>isDefault\<close> is that the command is not among the commands of the
  default keybindings: its source is \<open>Default\<close> if and only if the command has no
  default keybinding, and \<open>User\<close> otherwise.
\<close>

theorem resolve_unbound_entries:
  "\<forall>c \<in> set (getAllUnboundCommands svc (boundCommandsOf svc)).
     \<exists>e \<in> set (keybindingItems (resolve svc model)).
       command e = c \<and> keybinding e = None
       \<and> keybindingItem e =
           new_ResolvedKeybindingItem None (Some c) None None
             (Some c \<notin> set (map rki_command (getDefaultKeybindings svc)))
       \<and> (source e = ''Default''
            \<longleftrightarrow> Some c \<notin> set (map rki_command (getDefaultKeybindings svc)))
       \<and> (source e = ''User''
            \<longleftrightarrow> Some c \<in> set (map rki_command (getDefaultKeybindings svc)))"
proof
  fix c assume c: "c \<in> set (getAllUnboundCommands svc (boundCommandsOf svc))"
  let ?d = "Some c \<notin> set (map rki_command (getDefaultKeybindings svc))"
  let ?e = "toKeybindingEntry svc c (new_ResolvedKeybindingItem None (Some c) None None ?d)
      (editorActionsOf (getEditorActions svc))"
  have "?e \<in> set (resolve_items svc)"
    using c unfolding resolve_items_eq by auto
  then have "?e \<in> set (keybindingItems (resolve svc model))"
    by (simp add: resolve_def set_sort_by)
  moreover have "command ?e = c" "keybinding ?e = None"
    "keybindingItem ?e = new_ResolvedKeybindingItem None (Some c) None None ?d"
    "source ?e = ''Default'' \<longleftrightarrow> ?d" "source ?e = ''User'' \<longleftrightarrow> \<not> ?d"
    by (simp_all add: toKeybindingEntry_fields new_ResolvedKeybindingItem_def)
  ultimately show "\<exists>e \<in> set (keybindingItems (resolve svc model)).
       command e = c \<and> keybinding e = None
       \<and> keybindingItem e = new_ResolvedKeybindingItem None (Some c) None None ?d
       \<and> (source e = ''Default'' \<longleftrightarrow> ?d)
       \<and> (source e = ''User'' \<longleftrightarrow> Some c \<in> set (map rki_command (getDefaultKeybindings svc)))"
    by blast
qed

theorem resolve_unbound_entries_witness:
  "getAllUnboundCommands exampleServices (boundCommandsOf exampleServices)
     = [''editor.action.redo'', ''workbench.action.files.save'']
   \<and> map (\<lambda>e. (command e, keybinding e = None, source e))
         (keybindingItems (resolve exampleServices exampleModel))
     = [(''editor.action.undo'', False, ''Default''),
        (''editor.action.redo'', True, ''User''),
        (''workbench.action.files.save'', True, ''Default'')]"
proof -
  have b: "boundCommandsOf exampleServices = [''editor.action.undo'' \<mapsto> True]"
    by (rule ext)
      (simp add: boundCommandsOf_eq exampleServices_def undoBinding_def
        new_ResolvedKeybindingItem_def)
  have u: "getAllUnboundCommands exampleServices (boundCommandsOf exampleServices)
      = [''editor.action.redo'', ''workbench.action.files.save'']"
    unfolding b by (simp add: exampleServices_def)
  have r: "map (\<lambda>e. (command e, keybinding e = None, source e))
         (keybindingItems (resolve exampleServices exampleModel))
     = [(''editor.action.undo'', False, ''Default''),
        (''editor.action.redo'', True, ''User''),
        (''workbench.action.files.save'', True, ''Default'')]"
    unfolding resolve_def resolve_items_eq u
    by (simp add: exampleServices_def undoBinding_def redoBinding_def
        new_ResolvedKeybindingItem_def toKeybindingEntry_def getCommandLabel_def
        getCommandDefaultLabel_def editorActionsOf_def localize_def sort_by_def
        compareKeybindingData_def)
  show ?thesis
    using resolve_unbound_entries [of exampleServices exampleModel] u r by simp
qed

text \<open>
  Claim C9. The claim states the five rules of a total order. The rules hold (lemma
  \<open>compareKeybindingData_rules\<close>), but \<open>compareKeybindingData\<close> is no total order: in
  the rule for equal commands it reads \<open>isDefault\<close> of its first argument only. For two
  entries that the first three rules do not separate, of one command and of the same
  source, it returns the same non-zero number in both directions: \<open>1\<close> when both are
  default, \<open>-1\<close> when neither is. It never returns \<open>0\<close> for an entry and itself.
\<close>

theorem compareKeybindingData_same_command:
  "((keybinding a = None \<longleftrightarrow> keybinding b = None)
     \<and> commandLabel a = commandLabel b \<and> command a = command b
     \<and> (isDefault (keybindingItem a) \<longleftrightarrow> isDefault (keybindingItem b))
    \<longrightarrow> compareKeybindingData lc a b = compareKeybindingData lc b a
        \<and> compareKeybindingData lc a b = (if isDefault (keybindingItem a) then 1 else - 1))
   \<and> compareKeybindingData lc a a = (if isDefault (keybindingItem a) then 1 else - 1)
   \<and> compareKeybindingData lc a a \<noteq> 0"
proof -
  have s: "compareKeybindingData lc a a = (if isDefault (keybindingItem a) then 1 else - 1)"
    by (rule compareKeybindingData_same_source) simp_all
  have p: "compareKeybindingData lc a b = compareKeybindingData lc b a
      \<and> compareKeybindingData lc a b = (if isDefault (keybindingItem a) then 1 else - 1)"
    if h: "keybinding a = None \<longleftrightarrow> keybinding b = None" "commandLabel a = commandLabel b"
      "command a = command b" "isDefault (keybindingItem a) \<longleftrightarrow> isDefault (keybindingItem b)"
  proof -
    have "compareKeybindingData lc a b = (if isDefault (keybindingItem a) then 1 else - 1)"
      using h(1,2,3) by (rule compareKeybindingData_same_source)
    moreover have "compareKeybindingData lc b a = (if isDefault (keybindingItem b) then 1 else - 1)"
      using h(1,2,3) by (intro compareKeybindingData_same_source) simp_all
    ultimately show ?thesis using h(4) by simp
  qed
  have n: "compareKeybindingData lc a a \<noteq> 0" unfolding s by simp
  have q: "compareKeybindingData lc a b = compareKeybindingData lc b a
      \<and> compareKeybindingData lc a b = (if isDefault (keybindingItem a) then 1 else - 1)"
    if h: "(keybinding a = None \<longleftrightarrow> keybinding b = None)
      \<and> commandLabel a = commandLabel b \<and> command a = command b
      \<and> (isDefault (keybindingItem a) \<longleftrightarrow> isDefault (keybindingItem b))"
  proof -
    from h have h1: "keybinding a = None \<longleftrightarrow> keybinding b = None" by (rule conjunct1)
    from h have h2: "commandLabel a = commandLabel b" by (rule conjunct2 [THEN conjunct1])
    from h have h3: "command a = command b" by (rule conjunct2 [THEN conjunct2, THEN conjunct1])
    from h have h4: "isDefault (keybindingItem a) \<longleftrightarrow> isDefault (keybindingItem b)"
      by (rule conjunct2 [THEN conjunct2, THEN conjunct2])
    show ?thesis by (rule p [OF h1 h2 h3 h4])
  qed
  show ?thesis
    by (rule conjI, rule impI, erule q, rule conjI, rule s, rule n)
qed

theorem compareKeybindingData_same_command_witness:
  "set (keybindingItems (resolve copyServices exampleModel))
     = {copyItem ctrlC, copyItem ctrlInsert}
   \<and> copyItem ctrlC \<noteq> copyItem ctrlInsert
   \<and> compareKeybindingData (localeCompare copyServices) (copyItem ctrlC) (copyItem ctrlInsert) = 1
   \<and> compareKeybindingData (localeCompare copyServices) (copyItem ctrlInsert) (copyItem ctrlC) = 1
   \<and> compareKeybindingData (localeCompare copyServices) (copyItem ctrlC) (copyItem ctrlC) = 1"
proof -
  have r: "resolve_items copyServices = [copyItem ctrlC, copyItem ctrlInsert]"
    unfolding resolve_items_eq
    by (simp add: copyServices_def copyBinding_def copyItem_def labelledItem_def
        new_ResolvedKeybindingItem_def toKeybindingEntry_def getCommandLabel_def
        getCommandDefaultLabel_def editorActionsOf_def localize_def)
  have s: "set (keybindingItems (resolve copyServices exampleModel))
     = {copyItem ctrlC, copyItem ctrlInsert}"
    by (simp add: resolve_def set_sort_by r)
  have h: "(keybinding (copyItem ctrlC) = None \<longleftrightarrow> keybinding (copyItem ctrlInsert) = None)
      \<and> commandLabel (copyItem ctrlC) = commandLabel (copyItem ctrlInsert)
      \<and> command (copyItem ctrlC) = command (copyItem ctrlInsert)
      \<and> (isDefault (keybindingItem (copyItem ctrlC))
           \<longleftrightarrow> isDefault (keybindingItem (copyItem ctrlInsert)))"
    by (simp add: copyItem_def labelledItem_def new_ResolvedKeybindingItem_def)
  have h': "(keybinding (copyItem ctrlInsert) = None \<longleftrightarrow> keybinding (copyItem ctrlC) = None)
      \<and> commandLabel (copyItem ctrlInsert) = commandLabel (copyItem ctrlC)
      \<and> command (copyItem ctrlInsert) = command (copyItem ctrlC)
      \<and> (isDefault (keybindingItem (copyItem ctrlInsert))
           \<longleftrightarrow> isDefault (keybindingItem (copyItem ctrlC)))"
    by (simp add: copyItem_def labelledItem_def new_ResolvedKeybindingItem_def)
  have i: "isDefault (keybindingItem (copyItem ctrlC))"
    "isDefault (keybindingItem (copyItem ctrlInsert))"
    by (simp_all add: copyItem_def labelledItem_def new_ResolvedKeybindingItem_def)
  have d: "copyItem ctrlC \<noteq> copyItem ctrlInsert"
    by (simp add: copyItem_def labelledItem_def ctrlC_def ctrlInsert_def)
  have c1: "compareKeybindingData (localeCompare copyServices) (copyItem ctrlC)
      (copyItem ctrlInsert) = 1"
    using compareKeybindingData_same_command [of "copyItem ctrlC" "copyItem ctrlInsert"
        "localeCompare copyServices", THEN conjunct1, THEN mp, OF h, THEN conjunct2] i
    by simp
  have c2: "compareKeybindingData (localeCompare copyServices) (copyItem ctrlInsert)
      (copyItem ctrlC) = 1"
    using compareKeybindingData_same_command [of "copyItem ctrlInsert" "copyItem ctrlC"
        "localeCompare copyServices", THEN conjunct1, THEN mp, OF h', THEN conjunct2] i
    by simp
  have c3: "compareKeybindingData (localeCompare copyServices) (copyItem ctrlC)
      (copyItem ctrlC) = 1"
    using compareKeybindingData_same_command [of "copyItem ctrlC" "copyItem ctrlC"
        "localeCompare copyServices", THEN conjunct2, THEN conjunct1] i
    by simp
  show ?thesis
    using s d c1 c2 c3 by simp
qed

end
